theory Spec2Isabelle
  imports Main "HOL-Library.Sublist"
begin

section \<open>Python strings\<close>

text \<open>
  Object keys, filenames and patterns are Python \<open>str\<close> values, modelled as
  \<^typ>\<open>string\<close>. \<open>str.lower\<close> belongs to the Python library and follows the case
  mappings of Unicode: it is a parameter \<open>lower\<close> of every function that calls it, and
  what is proved holds for every such function.
\<close>

type_synonym str_lower = "string \<Rightarrow> string"

text \<open>\<open>s.split(c)\<close> for a one-character separator: never the empty list.\<close>

fun split :: "char \<Rightarrow> string \<Rightarrow> string list" where
  "split c [] = [[]]"
| "split c (x # xs) =
     (if x = c then [] # split c xs
      else (x # hd (split c xs)) # tl (split c xs))"

text \<open>\<open>c.join(parts)\<close> for a one-character separator.\<close>

fun join :: "char \<Rightarrow> string list \<Rightarrow> string" where
  "join c [] = []"
| "join c [p] = p"
| "join c (p # q # ps) = p @ c # join c (q # ps)"

text \<open>
  \<open>s.rsplit(c, 1)\<close> when \<open>c\<close> occurs in \<open>s\<close>: the part before the last \<open>c\<close>
  and the part after it. The source calls it under the guard \<open>'.' in filename\<close> only.
\<close>

definition rsplit1 :: "char \<Rightarrow> string \<Rightarrow> string \<times> string" where
  "rsplit1 c s =
     (rev (tl (dropWhile (\<lambda>x. x \<noteq> c) (rev s))), rev (takeWhile (\<lambda>x. x \<noteq> c) (rev s)))"

section \<open>Exceptions\<close>

text \<open>
  \<open>KeyError k\<close> is raised by a subscript \<open>d[k]\<close> on a missing key; \<open>LibError m\<close> is an
  exception raised inside a library call (\<open>re\<close>, \<open>json\<close>, the storage client), with
  \<open>m\<close> its \<open>str()\<close>. All of them are subclasses of \<open>Exception\<close>.
\<close>

datatype exn = KeyError string | LibError string

fun str_exn :: "exn \<Rightarrow> string" where
  "str_exn (KeyError k) = [CHR 0x27] @ k @ [CHR 0x27]"
| "str_exn (LibError m) = m"

section \<open>Rules and filename filters\<close>

text \<open>
  A filename filter is a JSON object; each key may be absent (\<open>None\<close>). The object is
  empty when every key is absent.
\<close>

datatype fnfilter =
  FnFilter (ftype: "string option") (case_sensitive: "bool option") (fvalue: "string option")
    (patterns: "fnfilter list option") (match_logic: "string option")

fun filter_is_empty :: "fnfilter \<Rightarrow> bool" where
  "filter_is_empty (FnFilter t cs v ps ml) =
     (t = None \<and> cs = None \<and> v = None \<and> ps = None \<and> ml = None)"

record rule =
  name :: "string option"
  priority :: "int option"
  enabled :: "bool option"
  pattern_type :: "string option"
  source_pattern :: "string option"
  source_patterns :: "string list option"
  file_types :: "string list option"
  filename_filter :: "fnfilter option"
  destination_bucket :: "string option"
  destination_prefix :: "string option"
  add_timestamp :: "bool option"
  delete_source :: "bool option"
  matched_keyword :: "string option"

text \<open>\<open>d.get(k, default)\<close> and \<open>d[k]\<close> on an optional field.\<close>

definition get_or :: "'a option \<Rightarrow> 'a \<Rightarrow> 'a" where
  "get_or v d = (case v of None \<Rightarrow> d | Some x \<Rightarrow> x)"

definition subscript :: "'a option \<Rightarrow> string \<Rightarrow> exn + 'a" where
  "subscript v k = (case v of None \<Rightarrow> Inl (KeyError k) | Some x \<Rightarrow> Inr x)"

text \<open>
  \<open>re.search(pattern, string, flags)\<close> belongs to the Python library: it is a parameter
  of the evaluator, taking the pattern, the subject and whether \<open>re.IGNORECASE\<close> is set,
  and returning whether a match was found, or the \<open>re.error\<close> of a pattern that does
  not compile.
\<close>

type_synonym re_search = "string \<Rightarrow> string \<Rightarrow> bool \<Rightarrow> exn + bool"

section \<open>Filename filter evaluator\<close>

fun check_filename_filter :: "str_lower \<Rightarrow> re_search \<Rightarrow> string \<Rightarrow> fnfilter \<Rightarrow> exn + bool"
  and check_patterns ::
    "str_lower \<Rightarrow> re_search \<Rightarrow> string \<Rightarrow> fnfilter list \<Rightarrow> exn + bool list"
where
  "check_filename_filter lower re filename (FnFilter t cs v ps ml) =
     (if filter_is_empty (FnFilter t cs v ps ml) then Inr True
      else
        let filter_type = get_or t ''none'';
            case_sens = get_or cs False;
            check_filename = (if case_sens then filename else lower filename)
        in
        if filter_type = ''starts_with'' then
          (case subscript v ''value'' of Inl e \<Rightarrow> Inl e
           | Inr val \<Rightarrow>
               Inr (prefix (if case_sens then val else lower val) check_filename))
        else if filter_type = ''not_starts_with'' then
          (case subscript v ''value'' of Inl e \<Rightarrow> Inl e
           | Inr val \<Rightarrow>
               Inr (\<not> prefix (if case_sens then val else lower val) check_filename))
        else if filter_type = ''ends_with'' then
          (case subscript v ''value'' of Inl e \<Rightarrow> Inl e
           | Inr val \<Rightarrow>
               Inr (suffix (if case_sens then val else lower val) check_filename))
        else if filter_type = ''contains'' then
          (case subscript v ''value'' of Inl e \<Rightarrow> Inl e
           | Inr val \<Rightarrow>
               Inr (sublist (if case_sens then val else lower val) check_filename))
        else if filter_type = ''regex'' then
          (case subscript v ''value'' of Inl e \<Rightarrow> Inl e
           | Inr pat \<Rightarrow> re pat filename (\<not> case_sens))
        else if filter_type = ''multiple_patterns'' then
          (case ps of
             None \<Rightarrow>
               Inr (if get_or ml ''any'' = ''any'' then list_ex id [] else list_all id [])
           | Some pats \<Rightarrow>
               (case check_patterns lower re filename pats of Inl e \<Rightarrow> Inl e
                | Inr results \<Rightarrow>
                    Inr (if get_or ml ''any'' = ''any'' then list_ex id results
                         else list_all id results)))
        else Inr True)"
| "check_patterns lower re filename [] = Inr []"
| "check_patterns lower re filename (p # pats) =
     (case check_filename_filter lower re filename p of Inl e \<Rightarrow> Inl e
      | Inr pattern_result \<Rightarrow>
          (case check_patterns lower re filename pats of Inl e \<Rightarrow> Inl e
           | Inr results \<Rightarrow> Inr (pattern_result # results)))"

declare check_filename_filter.simps(1) [simp del]

section \<open>File-type gate\<close>

definition file_ext :: "string \<Rightarrow> string" where
  "file_ext filename =
     (if CHR ''.'' \<in> set filename then CHR ''.'' # last (split (CHR ''.'') filename) else [])"

definition check_file_type :: "str_lower \<Rightarrow> string \<Rightarrow> string list \<Rightarrow> bool" where
  "check_file_type lower filename allowed_types =
     (if allowed_types = [] then True
      else lower (file_ext filename) \<in> set (map lower allowed_types))"

section \<open>Rule matcher\<close>

definition valid_pattern_types :: "string list" where
  "valid_pattern_types = [''prefix_with_filename_filter'', ''prefix'']"

definition source_folder :: "string \<Rightarrow> string" where
  "source_folder source_key =
     (if CHR ''/'' \<in> set source_key
      then join (CHR ''/'') (butlast (split (CHR ''/'') source_key)) @ ''/''
      else [])"

definition matches_rule ::
  "str_lower \<Rightarrow> re_search \<Rightarrow> string \<Rightarrow> string \<Rightarrow> rule \<Rightarrow> exn + bool" where
  "matches_rule lower re source_key filename r =
     (if \<not> get_or (enabled r) True then Inr False
      else if \<not> check_file_type lower filename (get_or (file_types r) []) then Inr False
      else
        let ptype = get_or (pattern_type r) ''prefix'';
            spattern = get_or (source_pattern r) []
        in
        if \<not> (ptype \<in> set valid_pattern_types \<and> source_folder source_key = spattern)
        then Inr False
        else if ptype = ''prefix_with_filename_filter''
        then check_filename_filter lower re filename
               (get_or (filename_filter r) (FnFilter None None None None None))
        else Inr True)"

section \<open>Rule resolver\<close>

text \<open>
  The loop over the rules. The log line of a match reads \<open>rule['name']\<close>, which raises
  \<open>KeyError\<close> on a rule without a name before the rule is returned.
\<close>

fun first_match ::
  "str_lower \<Rightarrow> re_search \<Rightarrow> string \<Rightarrow> string \<Rightarrow> rule list \<Rightarrow> exn + rule option" where
  "first_match lower re source_key filename [] = Inr None"
| "first_match lower re source_key filename (r # rs) =
     (case matches_rule lower re source_key filename r of
        Inl e \<Rightarrow> Inl e
      | Inr True \<Rightarrow>
          (case subscript (name r) ''name'' of Inl e \<Rightarrow> Inl e | Inr _ \<Rightarrow> Inr (Some r))
      | Inr False \<Rightarrow> first_match lower re source_key filename rs)"

definition find_best_destination ::
  "str_lower \<Rightarrow> re_search \<Rightarrow> string \<Rightarrow> rule list \<Rightarrow> exn + rule option" where
  "find_best_destination lower re source_key routing_rules =
     (let filename = last (split (CHR ''/'') source_key) in
      if prefix ''.'' filename \<or> suffix ''/'' source_key then Inr None
      else first_match lower re source_key filename routing_rules)"

section \<open>Clock readings and their formats\<close>

text \<open>
  \<open>datetime.now()\<close> yields a reading of the local clock. \<open>digits\<close> is the decimal
  numeral of a natural number and \<open>pad w\<close> pads it with zeros to at least \<open>w\<close> characters,
  as the fields of \<open>strftime\<close> and \<open>isoformat\<close> are (the year has four digits in every
  reading of a present-day clock).
\<close>

record datetime =
  year :: nat
  month :: nat
  day :: nat
  hour :: nat
  minute :: nat
  second :: nat
  microsecond :: nat

fun digits :: "nat \<Rightarrow> string" where
  "digits n = (if n < 10 then [char_of (48 + n)] else digits (n div 10) @ [char_of (48 + n mod
      10)])"

declare digits.simps [simp del]

definition pad :: "nat \<Rightarrow> nat \<Rightarrow> string" where
  "pad w n = replicate (w - length (digits n)) (CHR ''0'') @ digits n"

text \<open>\<open>strftime('%Y%m%d_%H%M%S')\<close>.\<close>

definition strftime :: "datetime \<Rightarrow> string" where
  "strftime d =
     pad 4 (year d) @ pad 2 (month d) @ pad 2 (day d) @ ''_''
       @ pad 2 (hour d) @ pad 2 (minute d) @ pad 2 (second d)"

definition isoformat :: "datetime \<Rightarrow> string" where
  "isoformat d =
     pad 4 (year d) @ ''-'' @ pad 2 (month d) @ ''-'' @ pad 2 (day d) @ ''T''
       @ pad 2 (hour d) @ '':'' @ pad 2 (minute d) @ '':'' @ pad 2 (second d)
       @ (if microsecond d = 0 then [] else ''.'' @ pad 6 (microsecond d))"

text \<open>\<open>str(i)\<close> of an integer.\<close>

definition str_int :: "int \<Rightarrow> string" where
  "str_int i = (if i < 0 then CHR ''-'' # digits (nat (- i)) else digits (nat i))"

section \<open>The object store, the environment and the process state\<close>

text \<open>
  A request sent to the storage client. \<open>CopyObject\<close> carries the source bucket and key,
  the destination bucket and key, the metadata directive and the metadata.
\<close>

datatype s3_call =
    HeadObject string string
  | GetObject string string
  | CopyObject string string string string string "(string \<times> string) list"
  | DeleteObject string string

text \<open>
  What the code does not decide is a field of \<open>world\<close>: the environment variables, the
  library functions \<open>urllib.parse.unquote_plus\<close>, \<open>str.lower\<close>, \<open>re.search\<close> and
  \<open>json.loads\<close> (after
  \<open>decode('utf-8')\<close>; either may raise; the documents considered are lists of rule
  objects whose fields, where present, have the types of \<open>rule\<close>), the clock (the
  \<open>n\<close>-th reading of the process) and the answers of the object store, which may depend
  on the requests issued before. \<open>head_object\<close> answers with the \<open>LastModified\<close> time of
  the object, \<open>get_object\<close> with its body.
\<close>

record world =
  environ :: "string \<Rightarrow> string option"
  unquote_plus :: "string \<Rightarrow> string"
  str_lower :: str_lower
  re_search :: re_search
  json_loads :: "string \<Rightarrow> exn + rule list"
  now :: "nat \<Rightarrow> datetime"
  head_object :: "s3_call list \<Rightarrow> string \<Rightarrow> string \<Rightarrow> exn + int"
  get_object :: "s3_call list \<Rightarrow> string \<Rightarrow> string \<Rightarrow> exn + string"
  copy_object :: "s3_call list \<Rightarrow> s3_call \<Rightarrow> exn + unit"
  delete_object :: "s3_call list \<Rightarrow> string \<Rightarrow> string \<Rightarrow> exn + unit"

text \<open>
  The module globals \<open>cached_config\<close> and \<open>config_last_modified\<close> (\<open>None\<close> at process
  start), the requests issued to the store so far, and the number of clock readings taken.
\<close>

record state =
  cached_config :: "rule list option"
  config_last_modified :: "int option"
  s3_calls :: "s3_call list"
  clock_reads :: nat

section \<open>Routing config cache\<close>

text \<open>
  \<open>os.environ.get('CONFIG_BUCKET', '')\<close> and
  \<open>os.environ.get('CONFIG_FILE_KEY', 'config/routing-rules.json')\<close>.
\<close>

definition config_bucket :: "world \<Rightarrow> string" where
  "config_bucket w = get_or (environ w ''CONFIG_BUCKET'') []"

definition config_key :: "world \<Rightarrow> string" where
  "config_key w = get_or (environ w ''CONFIG_FILE_KEY'') ''config/routing-rules.json''"

definition sort_priority :: "rule \<Rightarrow> int" where
  "sort_priority x = get_or (priority x) 999"

text \<open>
  \<open>cached_config and config_last_modified and last_modified <= config_last_modified\<close>:
  a list is true when it is not empty, a \<open>datetime\<close> always.
\<close>

definition cache_is_current :: "state \<Rightarrow> int \<Rightarrow> bool" where
  "cache_is_current s last_modified =
     (case cached_config s of
        None \<Rightarrow> False
      | Some cfg \<Rightarrow>
          cfg \<noteq> [] \<and>
          (case config_last_modified s of
             None \<Rightarrow> False
           | Some clm \<Rightarrow> last_modified \<le> clm))"

definition load_routing_config :: "world \<Rightarrow> state \<Rightarrow> rule list \<times> state" where
  "load_routing_config w s =
     (let s1 = s\<lparr>s3_calls := s3_calls s @ [HeadObject (config_bucket w) (config_key w)]\<rparr>
      in case head_object w (s3_calls s) (config_bucket w) (config_key w) of
           Inl e \<Rightarrow> ([], s1)
         | Inr last_modified \<Rightarrow>
             (case (if cache_is_current s1 last_modified then cached_config s1 else None) of
                Some cached \<Rightarrow> (cached, s1)
              | None \<Rightarrow>
                  let s2 = s1\<lparr>s3_calls := s3_calls s1
                                @ [GetObject (config_bucket w) (config_key w)]\<rparr>
                  in case get_object w (s3_calls s1) (config_bucket w) (config_key w) of
                       Inl e \<Rightarrow> ([], s2)
                     | Inr config_content \<Rightarrow>
                         (case json_loads w config_content of
                            Inl e \<Rightarrow> ([], s2)
                          | Inr parsed \<Rightarrow>
                              let routing_rules = sort_key sort_priority parsed
                              in (routing_rules,
                                  s2\<lparr>cached_config := Some routing_rules,
                                     config_last_modified := Some last_modified\<rparr>))))"

definition get_fallback_config :: "rule list" where
  "get_fallback_config =
     [\<lparr>name = Some ''Fallback Punchh'', priority = Some 1, enabled = None,
       pattern_type = Some ''multi_prefix'', source_pattern = None,
       source_patterns = Some [''Punchh/'', ''punchh/''],
       file_types = Some [''.csv'', ''.json''], filename_filter = None,
       destination_bucket = Some ''vh-punchh-prod'',
       destination_prefix = Some ''CheckIns/raw/'',
       add_timestamp = None, delete_source = None, matched_keyword = None\<rparr>]"

section \<open>Object processor\<close>

text \<open>
  The result dictionary of \<open>process_file\<close>; \<open>rpriority\<close> is \<open>None\<close> for \<open>'N/A'\<close>.
\<close>

datatype result =
    Success (source: string) (destination: string) (rule_used: string) (rpriority: "int option")
  | Failure (source: string) (error: string)

text \<open>The field \<open>result['success']\<close>.\<close>

fun success :: "result \<Rightarrow> bool" where
  "success (Success src dst used prio) = True"
| "success (Failure src msg) = False"

text \<open>The destination filename and the number of clock readings it takes.\<close>

definition destination_filename :: "world \<Rightarrow> state \<Rightarrow> string \<Rightarrow> rule \<Rightarrow> string \<times> state" where
  "destination_filename w s filename destination_info =
     (if get_or (add_timestamp destination_info) True then
        let timestamp = strftime (now w (clock_reads s));
            (nm, ext) = (if CHR ''.'' \<in> set filename then rsplit1 (CHR ''.'') filename
                         else (filename, []))
        in (nm @ ''_'' @ timestamp @ (if ext \<noteq> [] then ''.'' @ ext else []),
            s\<lparr>clock_reads := Suc (clock_reads s)\<rparr>)
      else (filename, s))"

text \<open>The body of the \<open>try\<close> block.\<close>

definition process_file_body ::
  "world \<Rightarrow> state \<Rightarrow> string \<Rightarrow> string \<Rightarrow> rule \<Rightarrow> (exn + result) \<times> state" where
  "process_file_body w s source_bucket source_key destination_info =
     (let filename = last (split (CHR ''/'') source_key);
          (dest_filename, s1) = destination_filename w s filename destination_info
      in case subscript (destination_prefix destination_info) ''destination_prefix'' of
           Inl e \<Rightarrow> (Inl e, s1)
         | Inr dprefix \<Rightarrow>
      let destination_key = dprefix @ dest_filename;
          processed_at = isoformat (now w (clock_reads s1));
          s2 = s1\<lparr>clock_reads := Suc (clock_reads s1)\<rparr>
      in case subscript (name destination_info) ''name'' of
           Inl e \<Rightarrow> (Inl e, s2)
         | Inr rname \<Rightarrow>
      let metadata =
            [(''source-bucket'', source_bucket),
             (''source-key'', source_key),
             (''processed-by'', ''configurable-file-mover''),
             (''processed-at'', processed_at),
             (''routing-rule'', rname),
             (''rule-priority'',
                (case priority destination_info of None \<Rightarrow> ''N/A'' | Some p \<Rightarrow> str_int p))]
            @ (case matched_keyword destination_info of
                 None \<Rightarrow> [] | Some k \<Rightarrow> [(''matched-keyword'', k)])
      in case subscript (destination_bucket destination_info) ''destination_bucket'' of
           Inl e \<Rightarrow> (Inl e, s2)
         | Inr dbucket \<Rightarrow>
      let copy_call =
            CopyObject source_bucket source_key dbucket destination_key ''REPLACE'' metadata;
          s3 = s2\<lparr>s3_calls := s3_calls s2 @ [copy_call]\<rparr>;
          ok = Success (''s3://'' @ source_bucket @ ''/'' @ source_key)
                 (''s3://'' @ dbucket @ ''/'' @ destination_key) rname
                 (priority destination_info)
      in case copy_object w (s3_calls s2) copy_call of
           Inl e \<Rightarrow> (Inl e, s3)
         | Inr _ \<Rightarrow>
             if get_or (delete_source destination_info) False then
               let s4 = s3\<lparr>s3_calls := s3_calls s3 @ [DeleteObject source_bucket source_key]\<rparr>
               in case delete_object w (s3_calls s3) source_bucket source_key of
                    Inl e \<Rightarrow> (Inl e, s4)
                  | Inr _ \<Rightarrow> (Inr ok, s4)
             else (Inr ok, s3))"

definition process_file :: "world \<Rightarrow> state \<Rightarrow> string \<Rightarrow> string \<Rightarrow> rule \<Rightarrow> result \<times> state" where
  "process_file w s source_bucket source_key destination_info =
     (case process_file_body w s source_bucket source_key destination_info of
        (Inr res, s') \<Rightarrow> (res, s')
      | (Inl e, s') \<Rightarrow>
          (Failure (''s3://'' @ source_bucket @ ''/'' @ source_key)
             (''Failed to process '' @ source_key @ '': '' @ str_exn e), s'))"

section \<open>Handler\<close>

record s3_record =
  bucket_name :: string
  object_key :: string

text \<open>
  The batch summary. The source returns \<open>body\<close> serialised by \<open>json.dumps\<close>; the model
  keeps the dictionary that is serialised.
\<close>

record response =
  statusCode :: nat
  processed_files :: nat
  errors :: nat
  successful :: "result list"
  failed :: "result list"

text \<open>
  The loop over the records, with the lists \<open>processed_files\<close> and \<open>errors\<close> as they
  grow. An exception of the resolver leaves the loop and the handler. A rule that the
  resolver returns has a name, so it is a non-empty dictionary and \<open>if destination_info\<close>
  holds for it.
\<close>

fun process_records ::
  "world \<Rightarrow> rule list \<Rightarrow> s3_record list \<Rightarrow> state \<Rightarrow> result list \<Rightarrow> result list
     \<Rightarrow> (exn + result list \<times> result list) \<times> state" where
  "process_records w routing_rules [] s done errs = (Inr (done, errs), s)"
| "process_records w routing_rules (rec # recs) s done errs =
     (let source_bucket = bucket_name rec;
          source_key = unquote_plus w (object_key rec)
      in if source_key = config_key w then process_records w routing_rules recs s done errs
         else
           case find_best_destination (str_lower w) (re_search w) source_key routing_rules of
             Inl e \<Rightarrow> (Inl e, s)
           | Inr None \<Rightarrow> process_records w routing_rules recs s done errs
           | Inr (Some destination_info) \<Rightarrow>
               (case process_file w s source_bucket source_key destination_info of
                  (result, s') \<Rightarrow>
                    if success result
                    then process_records w routing_rules recs s' (done @ [result]) errs
                    else process_records w routing_rules recs s' done (errs @ [result])))"

definition lambda_handler :: "world \<Rightarrow> state \<Rightarrow> s3_record list \<Rightarrow> (exn + response) \<times> state" where
  "lambda_handler w s event =
     (let (routing_rules, s1) = load_routing_config w s
      in case process_records w routing_rules event s1 [] [] of
           (Inl e, s') \<Rightarrow> (Inl e, s')
         | (Inr (done, errs), s') \<Rightarrow>
             (Inr \<lparr>statusCode = (if length errs = 0 then 200 else 207),
                   processed_files = length done,
                   errors = length errs,
                   successful = done,
                   failed = errs\<rparr>, s'))"

section \<open>Example inputs\<close>

text \<open>
  The strings of the examples consist of ASCII characters, on which \<open>str.lower\<close>
  replaces the letters \<open>A\<close> to \<open>Z\<close> by \<open>a\<close> to \<open>z\<close> and leaves every other character
  as it is.
\<close>

definition lower_ascii_char :: "char \<Rightarrow> char" where
  "lower_ascii_char c =
     (let n = (of_char c :: nat) in if 65 \<le> n \<and> n \<le> 90 then char_of (n + 32) else c)"

definition lower_ascii :: str_lower where
  "lower_ascii s = map lower_ascii_char s"

text \<open>
  The empty rule \<open>{}\<close>, and a stand-in for \<open>re.search\<close> on the patterns of the
  examples: a pattern without metacharacters is searched for as a substring, under
  \<open>re.IGNORECASE\<close> after lower-casing both sides, and the pattern \<open>(\<close> does not compile.
\<close>

definition empty_rule :: rule where
  "empty_rule =
     \<lparr>name = None, priority = None, enabled = None, pattern_type = None,
      source_pattern = None, source_patterns = None, file_types = None,
      filename_filter = None, destination_bucket = None, destination_prefix = None,
      add_timestamp = None, delete_source = None, matched_keyword = None\<rparr>"

definition re_literal :: re_search where
  "re_literal pat subject ignorecase =
     (if pat = ''('' then Inl (LibError ''missing ), unterminated subpattern at position 0'')
      else Inr (if ignorecase then sublist (lower_ascii pat) (lower_ascii subject)
                else sublist pat subject))"

text \<open>
  A rule for the folder \<open>Inbox/\<close> and the type \<open>.csv\<close>, and variants of it: with a
  filename filter, with a pattern type outside the valid ones, with a filter that lacks
  its \<open>value\<close>, with a filter whose pattern does not compile, without a name.
\<close>

definition inbox_rule :: rule where
  "inbox_rule =
     empty_rule\<lparr>name := Some ''inbox'', priority := Some 1, pattern_type := Some ''prefix'',
       source_pattern := Some ''Inbox/'', file_types := Some [''.csv''],
       destination_bucket := Some ''dst'', destination_prefix := Some ''Out/'',
       add_timestamp := Some False\<rparr>"

definition filtered_rule :: rule where
  "filtered_rule =
     inbox_rule\<lparr>name := Some ''filtered'', pattern_type := Some ''prefix_with_filename_filter'',
       filename_filter := Some (FnFilter (Some ''starts_with'') None (Some ''Data'') None None)\<rparr>"

definition glob_rule :: rule where
  "glob_rule = inbox_rule\<lparr>name := Some ''glob'', pattern_type := Some ''glob''\<rparr>"

definition no_value_rule :: rule where
  "no_value_rule =
     inbox_rule\<lparr>name := Some ''no value'', pattern_type := Some ''prefix_with_filename_filter'',
       filename_filter := Some (FnFilter (Some ''starts_with'') None None None None)\<rparr>"

definition bad_regex_rule :: rule where
  "bad_regex_rule =
     inbox_rule\<lparr>name := Some ''bad regex'', pattern_type := Some ''prefix_with_filename_filter'',
       filename_filter := Some (FnFilter (Some ''regex'') None (Some ''('') None None)\<rparr>"

definition no_filter_rule :: rule where
  "no_filter_rule =
     inbox_rule\<lparr>name := Some ''no filter'', pattern_type := Some ''prefix_with_filename_filter''\<rparr>"

definition nameless_rule :: rule where
  "nameless_rule = inbox_rule\<lparr>name := None\<rparr>"

text \<open>The rule for \<open>Inbox/\<close> with every file type allowed and the timestamp left on.\<close>

definition stamping_rule :: rule where
  "stamping_rule = inbox_rule\<lparr>file_types := None, add_timestamp := None\<rparr>"

text \<open>
  A clock reading, a world in which every call succeeds (the clock stands still, the
  configuration document holds \<open>inbox_rule\<close> and was last modified at time 100), and the
  state of a process that has just started.
\<close>

definition example_time :: datetime where
  "example_time =
     \<lparr>year = 2024, month = 3, day = 7, hour = 9, minute = 5, second = 30, microsecond = 0\<rparr>"

definition example_world :: world where
  "example_world =
     \<lparr>environ = (\<lambda>v. None),
      unquote_plus = (\<lambda>k. k),
      str_lower = lower_ascii,
      re_search = re_literal,
      json_loads = (\<lambda>content. if content = ''rules'' then Inr [inbox_rule]
                      else Inl (LibError ''Expecting value: line 1 column 1 (char 0)'')),
      now = (\<lambda>n. example_time),
      head_object = (\<lambda>calls b k. Inr 100),
      get_object = (\<lambda>calls b k. Inr ''rules''),
      copy_object = (\<lambda>calls c. Inr ()),
      delete_object = (\<lambda>calls b k. Inr ())\<rparr>"

definition initial_state :: state where
  "initial_state =
     \<lparr>cached_config = None, config_last_modified = None, s3_calls = [], clock_reads = 0\<rparr>"

text \<open>
  Rules with a priority beyond the sentinel, without a priority and with the priority of
  the sentinel; a world whose configuration document lists the first two before two rules
  of priority 1, and one whose document lists the rule without priority before the rule
  of priority 999; a state whose cache holds the document of \<open>example_world\<close>, and
  worlds in which the store cannot be reached, the document cannot be fetched, or it
  cannot be parsed.
\<close>

definition late_rule :: rule where
  "late_rule = inbox_rule\<lparr>name := Some ''late'', priority := Some 1000\<rparr>"

definition unranked_rule :: rule where
  "unranked_rule = inbox_rule\<lparr>name := Some ''unranked'', priority := None\<rparr>"

definition ranking_world :: world where
  "ranking_world =
     example_world\<lparr>json_loads :=
       (\<lambda>content. Inr [late_rule, unranked_rule, inbox_rule, filtered_rule])\<rparr>"

definition sentinel_rule :: rule where
  "sentinel_rule = inbox_rule\<lparr>name := Some ''sentinel'', priority := Some 999\<rparr>"

definition tie_world :: world where
  "tie_world =
     example_world\<lparr>json_loads :=
       (\<lambda>content. Inr [unranked_rule, sentinel_rule, inbox_rule])\<rparr>"

definition cached_state :: state where
  "cached_state =
     initial_state\<lparr>cached_config := Some [inbox_rule], config_last_modified := Some 100\<rparr>"

definition unreachable_world :: world where
  "unreachable_world =
     example_world\<lparr>head_object := (\<lambda>calls b k. Inl (LibError ''Could not connect''))\<rparr>"

definition unfetchable_world :: world where
  "unfetchable_world =
     example_world\<lparr>get_object := (\<lambda>calls b k. Inl (LibError ''Access Denied''))\<rparr>"

definition unparsable_world :: world where
  "unparsable_world = example_world\<lparr>get_object := (\<lambda>calls b k. Inr ''{'')\<rparr>"

definition data_event :: "s3_record list" where
  "data_event = [\<lparr>bucket_name = ''src'', object_key = ''Inbox/data.csv''\<rparr>]"

text \<open>
  A world in which the copy of \<open>Inbox/bad.csv\<close> is refused, one in which no object can
  be deleted, one whose configuration document puts a rule without filter value first,
  a rule that deletes its source, and a batch of two objects.
\<close>

definition flaky_world :: world where
  "flaky_world =
     example_world\<lparr>copy_object :=
       (\<lambda>calls c. case c of
            CopyObject sb sk db dk directive md \<Rightarrow>
              if sk = ''Inbox/bad.csv'' then Inl (LibError ''Access Denied'') else Inr ()
          | _ \<Rightarrow> Inr ())\<rparr>"

definition refusing_world :: world where
  "refusing_world =
     example_world\<lparr>copy_object := (\<lambda>calls c. Inl (LibError ''Access Denied''))\<rparr>"

definition undeletable_world :: world where
  "undeletable_world =
     example_world\<lparr>delete_object := (\<lambda>calls b k. Inl (LibError ''Access Denied''))\<rparr>"

definition misconfigured_world :: world where
  "misconfigured_world =
     example_world\<lparr>json_loads := (\<lambda>content. Inr [no_value_rule, inbox_rule])\<rparr>"

definition moving_rule :: rule where
  "moving_rule = inbox_rule\<lparr>name := Some ''moving'', delete_source := Some True\<rparr>"

definition mixed_event :: "s3_record list" where
  "mixed_event =
     [\<lparr>bucket_name = ''src'', object_key = ''Inbox/bad.csv''\<rparr>,
      \<lparr>bucket_name = ''src'', object_key = ''Other/skipped.csv''\<rparr>,
      \<lparr>bucket_name = ''src'', object_key = ''Inbox/data.csv''\<rparr>]"

section \<open>Facts about the string functions\<close>

lemma split_ne: "split c s \<noteq> []"
  by (induction s) auto

lemma last_split_notin: "c \<notin> set (last (split c s))"
proof (induction s)
  case Nil
  show ?case by simp
next
  case (Cons a s)
  obtain w ws where sp: "split c s = w # ws"
    using split_ne[of c s] by (cases "split c s") auto
  show ?case using Cons sp by (cases ws) auto
qed

lemma join_split: "join c (split c s) = s"
proof (induction s)
  case Nil
  show ?case by simp
next
  case (Cons a s)
  obtain w ws where sp: "split c s = w # ws"
    using split_ne[of c s] by (cases "split c s") auto
  show ?case using Cons sp by (cases ws) auto
qed

lemma length_split: "length (split c s) = Suc (length (filter (\<lambda>x. x = c) s))"
proof (induction s)
  case Nil
  show ?case by simp
next
  case (Cons a s)
  obtain w ws where sp: "split c s = w # ws"
    using split_ne[of c s] by (cases "split c s") auto
  show ?case using Cons sp by auto
qed

lemma join_snoc: "xs \<noteq> [] \<Longrightarrow> join c (xs @ [y]) = join c xs @ c # y"
  by (induction c xs rule: join.induct) auto

lemma butlast_split_ne:
  assumes "c \<in> set s"
  shows "butlast (split c s) \<noteq> []"
proof -
  from assms have "filter (\<lambda>x. x = c) s \<noteq> []"
    by (auto simp: filter_empty_conv)
  then have "length (split c s) \<ge> 2"
    unfolding length_split by (cases "filter (\<lambda>x. x = c) s") auto
  then show ?thesis
    by (cases "split c s" rule: rev_cases) auto
qed

lemma split_decomp:
  assumes "c \<in> set s"
  shows "join c (butlast (split c s)) @ c # last (split c s) = s"
proof -
  have "join c (butlast (split c s) @ [last (split c s)]) = s"
    using split_ne[of c s] by (simp add: join_split)
  then show ?thesis
    using butlast_split_ne[OF assms] by (simp add: join_snoc)
qed

lemma split_noc: "c \<notin> set s \<Longrightarrow> split c s = [s]"
  by (induction s) auto

lemma source_folder_filename: "source_folder k @ last (split (CHR ''/'') k) = k"
  using split_decomp[of "CHR ''/''" k] by (auto simp: source_folder_def split_noc)

lemma rsplit1_decomp:
  assumes "c \<in> set s"
  shows "fst (rsplit1 c s) @ c # snd (rsplit1 c s) = s"
proof -
  from assms have "dropWhile (\<lambda>x. x \<noteq> c) (rev s) \<noteq> []"
    by (auto simp: dropWhile_eq_Nil_conv)
  then obtain t where t: "dropWhile (\<lambda>x. x \<noteq> c) (rev s) = c # t"
    using hd_dropWhile[of "\<lambda>x. x \<noteq> c" "rev s"]
    by (cases "dropWhile (\<lambda>x. x \<noteq> c) (rev s)") auto
  have "rev s = takeWhile (\<lambda>x. x \<noteq> c) (rev s) @ c # t"
    using takeWhile_dropWhile_id[of "\<lambda>x. x \<noteq> c" "rev s"] t by simp
  then have "s = rev (takeWhile (\<lambda>x. x \<noteq> c) (rev s) @ c # t)"
    by (metis rev_rev_ident)
  then show ?thesis using t by (simp add: rsplit1_def)
qed

lemma rsplit1_snd_notin: "c \<notin> set (snd (rsplit1 c s))"
  using set_takeWhileD[of c "\<lambda>x. x \<noteq> c" "rev s"] by (auto simp: rsplit1_def)

section \<open>File-type gate: the allow-list on extensions\<close>

text \<open>
  Claim C7. \<open>check_file_type\<close> accepts every filename when the list of allowed types is
  empty. Otherwise the extension is \<open>'.'\<close> followed by everything after the last \<open>'.'\<close>
  of the filename, and the empty string for a filename without \<open>'.'\<close>; the filename is
  accepted exactly when \<open>str.lower\<close> maps the extension and some listed type to the same
  string, whatever function \<open>str.lower\<close> is. Since \<open>str.lower\<close> maps the empty string,
  and no other string, to the empty string, a filename without extension passes a
  non-empty list only when the empty string is listed. Since it maps \<open>.CSV\<close> and \<open>.csv\<close>
  to \<open>.csv\<close>, the filename \<open>a.CSV\<close> passes the list \<open>['.csv']\<close>; and since it maps
  \<open>.exe\<close> to itself, \<open>a.exe\<close> does not pass that list.
\<close>

theorem check_file_type_spec:
  "check_file_type lower filename []
   \<and> (allowed_types \<noteq> [] \<longrightarrow>
        check_file_type lower filename allowed_types
          = (\<exists>ext \<in> set allowed_types. lower (file_ext filename) = lower ext))
   \<and> (CHR ''.'' \<in> set filename \<longrightarrow>
        (\<exists>stem ext. filename = stem @ CHR ''.'' # ext \<and> CHR ''.'' \<notin> set ext
           \<and> file_ext filename = CHR ''.'' # ext))
   \<and> (CHR ''.'' \<notin> set filename \<longrightarrow> file_ext filename = [])
   \<and> (CHR ''.'' \<notin> set filename \<and> allowed_types \<noteq> [] \<and> (\<forall>s. (lower s = []) = (s = [])) \<longrightarrow>
        check_file_type lower filename allowed_types = ([] \<in> set allowed_types))
   \<and> (lower ''.CSV'' = ''.csv'' \<and> lower ''.csv'' = ''.csv'' \<longrightarrow>
        check_file_type lower ''a.CSV'' [''.csv''])
   \<and> (lower ''.exe'' = ''.exe'' \<and> lower ''.csv'' = ''.csv'' \<longrightarrow>
        \<not> check_file_type lower ''a.exe'' [''.csv''])"
proof -
  have a: "check_file_type lower filename []"
    by (simp add: check_file_type_def)
  have b: "allowed_types \<noteq> [] \<longrightarrow>
        check_file_type lower filename allowed_types
          = (\<exists>ext \<in> set allowed_types. lower (file_ext filename) = lower ext)"
    by (auto simp: check_file_type_def)
  have c: "CHR ''.'' \<in> set filename \<longrightarrow>
        (\<exists>stem ext. filename = stem @ CHR ''.'' # ext \<and> CHR ''.'' \<notin> set ext
           \<and> file_ext filename = CHR ''.'' # ext)"
  proof
    assume d: "CHR ''.'' \<in> set filename"
    let ?stem = "join (CHR ''.'') (butlast (split (CHR ''.'') filename))"
    let ?ext = "last (split (CHR ''.'') filename)"
    have "filename = ?stem @ CHR ''.'' # ?ext"
      using split_decomp[OF d] by simp
    moreover have "CHR ''.'' \<notin> set ?ext"
      by (rule last_split_notin)
    moreover have "file_ext filename = CHR ''.'' # ?ext"
      using d by (simp add: file_ext_def)
    ultimately show "\<exists>stem ext. filename = stem @ CHR ''.'' # ext \<and> CHR ''.'' \<notin> set ext
           \<and> file_ext filename = CHR ''.'' # ext"
      by blast
  qed
  have d: "CHR ''.'' \<notin> set filename \<longrightarrow> file_ext filename = []"
    by (simp add: file_ext_def)
  have e: "CHR ''.'' \<notin> set filename \<and> allowed_types \<noteq> [] \<and> (\<forall>s. (lower s = []) = (s = [])) \<longrightarrow>
        check_file_type lower filename allowed_types = ([] \<in> set allowed_types)"
  proof (intro impI, elim conjE)
    assume h: "CHR ''.'' \<notin> set filename" "allowed_types \<noteq> []" "\<forall>s. (lower s = []) = (s = [])"
    have l: "lower [] = []" using h(3) by simp
    have "check_file_type lower filename allowed_types
        = (\<exists>ext \<in> set allowed_types. [] = lower ext)"
      using h(1,2) l by (auto simp: check_file_type_def file_ext_def)
    also have "\<dots> = (\<exists>ext \<in> set allowed_types. ext = [])"
      using h(3) by (metis (no_types))
    finally show "check_file_type lower filename allowed_types = ([] \<in> set allowed_types)"
      by auto
  qed
  have x: "file_ext ''a.CSV'' = ''.CSV''" "file_ext ''a.exe'' = ''.exe''"
    by code_simp+
  have f: "lower ''.CSV'' = ''.csv'' \<and> lower ''.csv'' = ''.csv'' \<longrightarrow>
        check_file_type lower ''a.CSV'' [''.csv'']"
    unfolding check_file_type_def x by simp
  have g: "lower ''.exe'' = ''.exe'' \<and> lower ''.csv'' = ''.csv'' \<longrightarrow>
        \<not> check_file_type lower ''a.exe'' [''.csv'']"
    unfolding check_file_type_def x by simp
  from a b c d e f g show ?thesis by blast
qed

theorem check_file_type_spec_witness:
  "check_file_type lower_ascii ''report'' [''.csv'', '''']
   \<and> \<not> check_file_type lower_ascii ''report'' [''.csv'']
   \<and> file_ext ''a.tar.GZ'' = ''.GZ''
   \<and> check_file_type lower_ascii ''a.tar.GZ'' [''.csv'', ''.gz'']
   \<and> \<not> check_file_type lower_ascii ''a.tar.GZ'' [''.csv'', ''.tar'']
   \<and> check_file_type lower_ascii ''a.CSV'' [''.csv'']
   \<and> \<not> check_file_type lower_ascii ''a.exe'' [''.csv'']"
proof -
  have n: "CHR ''.'' \<notin> set ''report''" by simp
  have y: "CHR ''.'' \<in> set ''a.tar.GZ''" by simp
  have z: "\<forall>s. (lower_ascii s = []) = (s = [])"
    by (simp add: lower_ascii_def)
  have l: "lower_ascii ''.GZ'' = ''.gz''" "lower_ascii ''.gz'' = ''.gz''"
    "lower_ascii ''.csv'' = ''.csv''" "lower_ascii ''.CSV'' = ''.csv''"
    "lower_ascii ''.exe'' = ''.exe''" "lower_ascii ''.tar'' = ''.tar''"
    by code_simp+
  note S = check_file_type_spec[where lower = lower_ascii]
  have 1: "check_file_type lower_ascii ''report'' [''.csv'', '''']"
    using S[where filename = "''report''" and allowed_types = "[''.csv'', '''']",
        THEN conjunct2, THEN conjunct2, THEN conjunct2, THEN conjunct2, THEN conjunct1] n z
    by simp
  have 2: "\<not> check_file_type lower_ascii ''report'' [''.csv'']"
    using S[where filename = "''report''" and allowed_types = "[''.csv'']",
        THEN conjunct2, THEN conjunct2, THEN conjunct2, THEN conjunct2, THEN conjunct1] n z
    by simp
  have 3: "file_ext ''a.tar.GZ'' = ''.GZ''" by code_simp
  have 4: "check_file_type lower_ascii ''a.tar.GZ'' [''.csv'', ''.gz'']"
    using S[where filename = "''a.tar.GZ''" and allowed_types = "[''.csv'', ''.gz'']",
        THEN conjunct2, THEN conjunct1]
    by (simp add: 3 l)
  have 5: "\<not> check_file_type lower_ascii ''a.tar.GZ'' [''.csv'', ''.tar'']"
    using S[where filename = "''a.tar.GZ''" and allowed_types = "[''.csv'', ''.tar'']",
        THEN conjunct2, THEN conjunct1]
    by (simp add: 3 l)
  have 6: "check_file_type lower_ascii ''a.CSV'' [''.csv'']"
    using S[THEN conjunct2, THEN conjunct2, THEN conjunct2, THEN conjunct2, THEN conjunct2,
        THEN conjunct1] l
    by simp
  have 7: "\<not> check_file_type lower_ascii ''a.exe'' [''.csv'']"
    using S[THEN conjunct2, THEN conjunct2, THEN conjunct2, THEN conjunct2, THEN conjunct2,
        THEN conjunct2] l
    by simp
  from 1 2 3 4 5 6 7 show ?thesis by blast
qed

section \<open>Filename filter evaluator: nested filters\<close>

lemma check_patterns_all:
  "(\<forall>p \<in> set pats. \<exists>b. check_filename_filter lower re fn p = Inr b) \<Longrightarrow>
   check_patterns lower re fn pats = Inr (map (\<lambda>p. check_filename_filter lower re fn p = Inr True)
       pats)"
  by (induction pats) auto

lemma check_patterns_Inr:
  "check_patterns lower re fn pats = Inr bs \<Longrightarrow>
   \<forall>p \<in> set pats. \<exists>b. check_filename_filter lower re fn p = Inr b"
  by (induction pats arbitrary: bs) (auto split: sum.splits)

lemma check_patterns_raises:
  assumes "\<exists>p \<in> set pats. \<exists>e. check_filename_filter lower re fn p = Inl e"
  shows "\<exists>e. check_patterns lower re fn pats = Inl e"
proof (cases "check_patterns lower re fn pats")
  case (Inl e)
  then show ?thesis by blast
next
  case (Inr bs)
  from check_patterns_Inr[OF this] assms show ?thesis by auto
qed

lemma check_patterns_first_raise:
  "\<forall>q \<in> set before. \<exists>b. check_filename_filter lower re fn q = Inr b \<Longrightarrow>
   check_filename_filter lower re fn p = Inl e \<Longrightarrow>
   check_patterns lower re fn (before @ p # after) = Inl e"
  by (induction before) auto

lemma multiple_patterns_unfold:
  "check_filename_filter lower re fn (FnFilter (Some ''multiple_patterns'') cs v ps ml) =
     (case ps of
        None \<Rightarrow> Inr (if get_or ml ''any'' = ''any'' then list_ex id [] else list_all id [])
      | Some pats \<Rightarrow>
          (case check_patterns lower re fn pats of Inl e \<Rightarrow> Inl e
           | Inr results \<Rightarrow>
               Inr (if get_or ml ''any'' = ''any'' then list_ex id results
                    else list_all id results)))"
  by (simp add: check_filename_filter.simps(1) get_or_def)

text \<open>
  Claim C6, as amended. A \<open>multiple_patterns\<close> filter evaluates every nested filter on
  the filename, in order. When all of them return, the result is the disjunction of
  their results when \<open>match_logic\<close> is \<open>'any'\<close> or absent (the default of the source is
  \<open>'any'\<close>), and their conjunction when \<open>match_logic\<close> has any other value. When one of
  them raises, so does the whole filter, with the exception of the first nested filter
  that raises. Without \<open>patterns\<close> the list is empty: the disjunction is false, the
  conjunction true.
\<close>

theorem multiple_patterns_spec:
  "((\<forall>p \<in> set pats. \<exists>b. check_filename_filter lower re fn p = Inr b) \<longrightarrow>
      check_filename_filter lower re fn (FnFilter (Some ''multiple_patterns'') cs v (Some pats)
          ml) =
        Inr (if ml = None \<or> ml = Some ''any''
             then (\<exists>p \<in> set pats. check_filename_filter lower re fn p = Inr True)
             else (\<forall>p \<in> set pats. check_filename_filter lower re fn p = Inr True)))
   \<and> ((\<exists>p \<in> set pats. \<exists>e. check_filename_filter lower re fn p = Inl e) \<longrightarrow>
      (\<exists>e. check_filename_filter lower re fn
              (FnFilter (Some ''multiple_patterns'') cs v (Some pats) ml) = Inl e))
   \<and> check_filename_filter lower re fn (FnFilter (Some ''multiple_patterns'') cs v None ml) =
        Inr (ml \<noteq> None \<and> ml \<noteq> Some ''any'')
   \<and> ((\<forall>q \<in> set before. \<exists>b. check_filename_filter lower re fn q = Inr b)
        \<and> check_filename_filter lower re fn p = Inl e \<longrightarrow>
      check_filename_filter lower re fn
        (FnFilter (Some ''multiple_patterns'') cs v (Some (before @ p # after)) ml) = Inl e)"
proof -
  have ml: "(get_or ml ''any'' = ''any'') = (ml = None \<or> ml = Some ''any'')"
    by (cases ml) (auto simp: get_or_def)
  have a: "(\<forall>p \<in> set pats. \<exists>b. check_filename_filter lower re fn p = Inr b) \<longrightarrow>
      check_filename_filter lower re fn (FnFilter (Some ''multiple_patterns'') cs v (Some pats)
          ml) =
        Inr (if ml = None \<or> ml = Some ''any''
             then (\<exists>p \<in> set pats. check_filename_filter lower re fn p = Inr True)
             else (\<forall>p \<in> set pats. check_filename_filter lower re fn p = Inr True))"
  proof
    assume h: "\<forall>p \<in> set pats. \<exists>b. check_filename_filter lower re fn p = Inr b"
    show "check_filename_filter lower re fn (FnFilter (Some ''multiple_patterns'') cs v (Some
        pats) ml) =
        Inr (if ml = None \<or> ml = Some ''any''
             then (\<exists>p \<in> set pats. check_filename_filter lower re fn p = Inr True)
             else (\<forall>p \<in> set pats. check_filename_filter lower re fn p = Inr True))"
      unfolding multiple_patterns_unfold
      by (simp add: check_patterns_all[OF h] ml list_ex_iff list_all_iff)
  qed
  have b: "(\<exists>p \<in> set pats. \<exists>e. check_filename_filter lower re fn p = Inl e) \<longrightarrow>
      (\<exists>e. check_filename_filter lower re fn
              (FnFilter (Some ''multiple_patterns'') cs v (Some pats) ml) = Inl e)"
  proof
    assume "\<exists>p \<in> set pats. \<exists>e. check_filename_filter lower re fn p = Inl e"
    from check_patterns_raises[OF this] obtain e where "check_patterns lower re fn pats = Inl e" ..
    then show "\<exists>e. check_filename_filter lower re fn
              (FnFilter (Some ''multiple_patterns'') cs v (Some pats) ml) = Inl e"
      unfolding multiple_patterns_unfold by simp
  qed
  have c: "check_filename_filter lower re fn (FnFilter (Some ''multiple_patterns'') cs v None ml) =
        Inr (ml \<noteq> None \<and> ml \<noteq> Some ''any'')"
    unfolding multiple_patterns_unfold by (simp add: ml)
  have d: "(\<forall>q \<in> set before. \<exists>b. check_filename_filter lower re fn q = Inr b)
        \<and> check_filename_filter lower re fn p = Inl e \<longrightarrow>
      check_filename_filter lower re fn
        (FnFilter (Some ''multiple_patterns'') cs v (Some (before @ p # after)) ml) = Inl e"
    unfolding multiple_patterns_unfold
    using check_patterns_first_raise[of before lower re fn p e after] by auto
  show ?thesis
    by (intro conjI) (rule a b c d)+
qed

theorem multiple_patterns_spec_witness:
  "check_filename_filter lower_ascii re_literal ''Alpha.txt''
     (FnFilter (Some ''multiple_patterns'') None None
        (Some [FnFilter (Some ''starts_with'') (Some True) (Some ''A'') None None,
               FnFilter (Some ''ends_with'') (Some True) (Some ''Z'') None None])
        (Some ''all'')) = Inr False
   \<and> check_filename_filter lower_ascii re_literal ''Alpha.txt''
     (FnFilter (Some ''multiple_patterns'') None None
        (Some [FnFilter (Some ''starts_with'') (Some True) (Some ''A'') None None,
               FnFilter (Some ''ends_with'') (Some True) (Some ''Z'') None None])
        (Some ''any'')) = Inr True
   \<and> (\<exists>e. check_filename_filter lower_ascii re_literal ''Alpha.txt''
     (FnFilter (Some ''multiple_patterns'') None None
        (Some [FnFilter (Some ''starts_with'') (Some True) (Some ''A'') None None,
               FnFilter (Some ''ends_with'') None None None None])
        (Some ''any'')) = Inl e)
   \<and> check_filename_filter lower_ascii re_literal ''Alpha.txt''
     (FnFilter (Some ''multiple_patterns'') None None
        (Some [FnFilter (Some ''starts_with'') (Some True) (Some ''A'') None None,
               FnFilter (Some ''ends_with'') None None None None,
               FnFilter (Some ''regex'') None (Some ''('') None None])
        (Some ''any'')) = Inl (KeyError ''value'')"
proof -
  let ?re = re_literal
  let ?A = "FnFilter (Some ''starts_with'') (Some True) (Some ''A'') None None"
  let ?Z = "FnFilter (Some ''ends_with'') (Some True) (Some ''Z'') None None"
  let ?B = "FnFilter (Some ''ends_with'') None None None None"
  have a: "check_filename_filter lower_ascii ?re ''Alpha.txt'' ?A = Inr True" by code_simp
  have z: "check_filename_filter lower_ascii ?re ''Alpha.txt'' ?Z = Inr False" by code_simp
  have b: "check_filename_filter lower_ascii ?re ''Alpha.txt'' ?B = Inl (KeyError ''value'')" by
      code_simp
  have h: "\<forall>p \<in> set [?A, ?Z]. \<exists>b. check_filename_filter lower_ascii ?re ''Alpha.txt'' p = Inr b"
    using a z by auto
  have r: "\<exists>p \<in> set [?A, ?B]. \<exists>e. check_filename_filter lower_ascii ?re ''Alpha.txt'' p = Inl e"
    using b by auto
  from multiple_patterns_spec[where lower = lower_ascii, of "[?A, ?Z]" ?re "''Alpha.txt''" None
      None "Some ''all''"] h a z
  have 1: "check_filename_filter lower_ascii ?re ''Alpha.txt''
     (FnFilter (Some ''multiple_patterns'') None None (Some [?A, ?Z]) (Some ''all'')) = Inr False"
    by simp
  from multiple_patterns_spec[where lower = lower_ascii, of "[?A, ?Z]" ?re "''Alpha.txt''" None
      None "Some ''any''"] h a z
  have 2: "check_filename_filter lower_ascii ?re ''Alpha.txt''
     (FnFilter (Some ''multiple_patterns'') None None (Some [?A, ?Z]) (Some ''any'')) = Inr True"
    by simp
  from multiple_patterns_spec[where lower = lower_ascii, of "[?A, ?B]" ?re "''Alpha.txt''" None
      None "Some ''any''"] r
  have 3: "\<exists>e. check_filename_filter lower_ascii ?re ''Alpha.txt''
     (FnFilter (Some ''multiple_patterns'') None None (Some [?A, ?B]) (Some ''any'')) = Inl e"
    by blast
  let ?R = "FnFilter (Some ''regex'') None (Some ''('') None None"
  have ok: "\<forall>q \<in> set [?A]. \<exists>b. check_filename_filter lower_ascii ?re ''Alpha.txt'' q = Inr b"
    using a by auto
  have 4: "check_filename_filter lower_ascii ?re ''Alpha.txt''
     (FnFilter (Some ''multiple_patterns'') None None (Some ([?A] @ ?B # [?R])) (Some ''any''))
       = Inl (KeyError ''value'')"
    using multiple_patterns_spec[where lower = lower_ascii and re = ?re
        and fn = "''Alpha.txt''" and before = "[?A]" and p = ?B and after = "[?R]"
        and e = "KeyError ''value''" and cs = None and v = None and ml = "Some ''any''",
        THEN conjunct2, THEN conjunct2, THEN conjunct2] ok b
    by blast
  from 1 2 3 4 show ?thesis by simp
qed

text \<open>
  Claim C6 as stated fails when \<open>match_logic\<close> is absent: the filter below has one
  nested filter that accepts \<open>Alpha.txt\<close> and one that rejects it, and it accepts
  \<open>Alpha.txt\<close>, where a conjunction would reject it.
\<close>

theorem multiple_patterns_default_counterexample:
  "check_filename_filter lower_ascii re_literal ''Alpha.txt''
     (FnFilter (Some ''multiple_patterns'') None None
        (Some [FnFilter (Some ''starts_with'') (Some True) (Some ''A'') None None,
               FnFilter (Some ''ends_with'') (Some True) (Some ''Z'') None None]) None) = Inr True
   \<and> check_filename_filter lower_ascii re_literal ''Alpha.txt''
        (FnFilter (Some ''starts_with'') (Some True) (Some ''A'') None None) = Inr True
   \<and> check_filename_filter lower_ascii re_literal ''Alpha.txt''
        (FnFilter (Some ''ends_with'') (Some True) (Some ''Z'') None None) = Inr False"
  by code_simp

section \<open>Rule resolver: the first match\<close>

lemma first_match_skip:
  "\<forall>q \<in> set pre. matches_rule lower re k fn q = Inr False \<Longrightarrow>
   first_match lower re k fn (pre @ rs) = first_match lower re k fn rs"
  by (induction pre) auto

lemma first_match_none:
  "\<forall>q \<in> set rs. matches_rule lower re k fn q = Inr False \<Longrightarrow> first_match lower re k fn rs = Inr None"
  using first_match_skip[of rs lower re k fn "[]"] by simp

text \<open>
  Claim C1, as amended. For a key whose filename starts with \<open>'.'\<close> or that ends with
  \<open>'/'\<close>, \<open>find_best_destination\<close> returns none whatever the rules are, also rules on
  which the matcher would raise. For any other key it returns none when the matcher
  returns false on every rule (so on the empty list), and it returns the first rule in
  list order on which the matcher returns true, when the matcher returns false on every
  rule before it and that rule has a name. When the matcher raises on a rule and has
  returned false on every rule before it, the resolver raises the same exception.
\<close>

theorem find_best_destination_spec:
  "((prefix ''.'' (last (split (CHR ''/'') source_key)) \<or> suffix ''/'' source_key) \<longrightarrow>
      find_best_destination lower re source_key rules = Inr None)
   \<and> (\<not> prefix ''.'' (last (split (CHR ''/'') source_key)) \<and> \<not> suffix ''/'' source_key
        \<and> (\<forall>q \<in> set rules.
              matches_rule lower re source_key (last (split (CHR ''/'') source_key)) q = Inr
                  False) \<longrightarrow>
      find_best_destination lower re source_key rules = Inr None)
   \<and> (\<not> prefix ''.'' (last (split (CHR ''/'') source_key)) \<and> \<not> suffix ''/'' source_key
        \<and> rules = before @ r # after
        \<and> (\<forall>q \<in> set before.
              matches_rule lower re source_key (last (split (CHR ''/'') source_key)) q = Inr False)
        \<and> matches_rule lower re source_key (last (split (CHR ''/'') source_key)) r = Inr True
        \<and> name r \<noteq> None \<longrightarrow>
      find_best_destination lower re source_key rules = Inr (Some r))
   \<and> (\<not> prefix ''.'' (last (split (CHR ''/'') source_key)) \<and> \<not> suffix ''/'' source_key
        \<and> rules = before @ r # after
        \<and> (\<forall>q \<in> set before.
              matches_rule lower re source_key (last (split (CHR ''/'') source_key)) q = Inr False)
        \<and> matches_rule lower re source_key (last (split (CHR ''/'') source_key)) r = Inl e \<longrightarrow>
      find_best_destination lower re source_key rules = Inl e)"
proof -
  let ?fn = "last (split (CHR ''/'') source_key)"
  let ?visible = "\<not> prefix ''.'' ?fn \<and> \<not> suffix ''/'' source_key"
  have a: "(prefix ''.'' ?fn \<or> suffix ''/'' source_key) \<longrightarrow>
      find_best_destination lower re source_key rules = Inr None"
    by (simp add: find_best_destination_def Let_def)
  have v: "?visible \<Longrightarrow>
      find_best_destination lower re source_key rules = first_match lower re source_key ?fn rules"
    by (simp add: find_best_destination_def Let_def)
  have b: "?visible \<and> (\<forall>q \<in> set rules. matches_rule lower re source_key ?fn q = Inr False) \<longrightarrow>
      find_best_destination lower re source_key rules = Inr None"
    using v first_match_none by auto
  have c: "?visible \<and> rules = before @ r # after
        \<and> (\<forall>q \<in> set before. matches_rule lower re source_key ?fn q = Inr False)
        \<and> matches_rule lower re source_key ?fn r = Inr True \<and> name r \<noteq> None \<longrightarrow>
      find_best_destination lower re source_key rules = Inr (Some r)"
  proof (intro impI, elim conjE)
    assume h: "\<not> prefix ''.'' ?fn" "\<not> suffix ''/'' source_key" "rules = before @ r # after"
      "\<forall>q \<in> set before. matches_rule lower re source_key ?fn q = Inr False"
      "matches_rule lower re source_key ?fn r = Inr True" "name r \<noteq> None"
    have "first_match lower re source_key ?fn rules = first_match lower re source_key ?fn (r #
        after)"
      using h(3) first_match_skip[OF h(4)] by simp
    also have "\<dots> = Inr (Some r)"
      using h(5,6) by (auto simp: subscript_def)
    finally show "find_best_destination lower re source_key rules = Inr (Some r)"
      using v h(1,2) by simp
  qed
  have d: "?visible \<and> rules = before @ r # after
        \<and> (\<forall>q \<in> set before. matches_rule lower re source_key ?fn q = Inr False)
        \<and> matches_rule lower re source_key ?fn r = Inl e \<longrightarrow>
      find_best_destination lower re source_key rules = Inl e"
  proof (intro impI, elim conjE)
    assume h: "\<not> prefix ''.'' ?fn" "\<not> suffix ''/'' source_key" "rules = before @ r # after"
      "\<forall>q \<in> set before. matches_rule lower re source_key ?fn q = Inr False"
      "matches_rule lower re source_key ?fn r = Inl e"
    have "first_match lower re source_key ?fn rules = first_match lower re source_key ?fn (r #
        after)"
      using h(3) first_match_skip[OF h(4)] by simp
    also have "\<dots> = Inl e"
      using h(5) by simp
    finally show "find_best_destination lower re source_key rules = Inl e"
      using v h(1,2) by simp
  qed
  from a b c d show ?thesis by blast
qed

theorem find_best_destination_spec_witness:
  "find_best_destination lower_ascii re_literal ''Inbox/Data1.csv'' [glob_rule, filtered_rule,
      inbox_rule]
     = Inr (Some filtered_rule)
   \<and> find_best_destination lower_ascii re_literal ''Inbox/.keep'' [no_value_rule, inbox_rule] =
       Inr None
   \<and> find_best_destination lower_ascii re_literal ''Inbox/'' [no_value_rule, inbox_rule] = Inr None
   \<and> find_best_destination lower_ascii re_literal ''Other/Data1.csv'' [glob_rule, filtered_rule,
       inbox_rule]
     = Inr None
   \<and> find_best_destination lower_ascii re_literal ''Inbox/Data1.csv'' [glob_rule, no_value_rule,
       inbox_rule]
     = Inl (KeyError ''value'')"
proof -
  have fn: "last (split (CHR ''/'') ''Inbox/Data1.csv'') = ''Data1.csv''"
    "last (split (CHR ''/'') ''Inbox/.keep'') = ''.keep''"
    "last (split (CHR ''/'') ''Other/Data1.csv'') = ''Data1.csv''"
    by code_simp+
  have vis: "\<not> prefix ''.'' ''Data1.csv''" "\<not> suffix ''/'' ''Inbox/Data1.csv''"
    "\<not> suffix ''/'' ''Other/Data1.csv''" "prefix ''.'' ''.keep''" "suffix ''/'' ''Inbox/''"
    by code_simp+
  have m: "matches_rule lower_ascii re_literal ''Inbox/Data1.csv'' ''Data1.csv'' glob_rule = Inr
      False"
    "matches_rule lower_ascii re_literal ''Inbox/Data1.csv'' ''Data1.csv'' filtered_rule = Inr True"
    "matches_rule lower_ascii re_literal ''Inbox/Data1.csv'' ''Data1.csv'' no_value_rule
       = Inl (KeyError ''value'')"
    "matches_rule lower_ascii re_literal ''Other/Data1.csv'' ''Data1.csv'' glob_rule = Inr False"
    "matches_rule lower_ascii re_literal ''Other/Data1.csv'' ''Data1.csv'' filtered_rule = Inr
        False"
    "matches_rule lower_ascii re_literal ''Other/Data1.csv'' ''Data1.csv'' inbox_rule = Inr False"
    by code_simp+
  have nm: "name filtered_rule \<noteq> None"
    by (simp add: filtered_rule_def)
  from find_best_destination_spec[where lower = lower_ascii, of "''Inbox/Data1.csv''" re_literal
      "[glob_rule, filtered_rule, inbox_rule]" "[glob_rule]" filtered_rule "[inbox_rule]",
      unfolded fn] vis m nm
  have 1: "find_best_destination lower_ascii re_literal ''Inbox/Data1.csv''
      [glob_rule, filtered_rule, inbox_rule] = Inr (Some filtered_rule)"
    by simp
  from find_best_destination_spec[where lower = lower_ascii, of "''Inbox/.keep''" re_literal
      "[no_value_rule, inbox_rule]",
      unfolded fn] vis
  have 2: "find_best_destination lower_ascii re_literal ''Inbox/.keep'' [no_value_rule,
      inbox_rule] = Inr None"
    by simp
  from find_best_destination_spec[where lower = lower_ascii, of "''Inbox/''" re_literal
      "[no_value_rule, inbox_rule]"] vis
  have 3: "find_best_destination lower_ascii re_literal ''Inbox/'' [no_value_rule, inbox_rule] =
      Inr None"
    by simp
  from find_best_destination_spec[where lower = lower_ascii, of "''Other/Data1.csv''" re_literal
      "[glob_rule, filtered_rule, inbox_rule]", unfolded fn] vis m
  have 4: "find_best_destination lower_ascii re_literal ''Other/Data1.csv''
      [glob_rule, filtered_rule, inbox_rule] = Inr None"
    by simp
  from find_best_destination_spec[where lower = lower_ascii, of "''Inbox/Data1.csv''" re_literal
      "[glob_rule, no_value_rule, inbox_rule]" "[glob_rule]" no_value_rule "[inbox_rule]"
      "KeyError ''value''", unfolded fn] vis m
  have 5: "find_best_destination lower_ascii re_literal ''Inbox/Data1.csv''
      [glob_rule, no_value_rule, inbox_rule] = Inl (KeyError ''value'')"
    by simp
  from 1 2 3 4 5 show ?thesis by blast
qed

text \<open>
  Claim C1 as stated fails on a rule list in which the matcher raises before the first
  match: \<open>inbox_rule\<close> is the first rule of the list on which the matcher returns true,
  and the resolver does not return it.
\<close>

theorem find_best_destination_counterexample:
  "matches_rule lower_ascii re_literal ''Inbox/Data1.csv'' ''Data1.csv'' inbox_rule = Inr True
   \<and> matches_rule lower_ascii re_literal ''Inbox/Data1.csv'' ''Data1.csv'' no_value_rule \<noteq> Inr True
   \<and> find_best_destination lower_ascii re_literal ''Inbox/Data1.csv'' [no_value_rule, inbox_rule]
        \<noteq> Inr (Some inbox_rule)
   \<and> find_best_destination lower_ascii re_literal ''Inbox/Data1.csv'' [no_value_rule, inbox_rule]
        = Inl (KeyError ''value'')"
  by code_simp

section \<open>Rule matcher\<close>

lemma source_folder_suffix: "CHR ''/'' \<in> set k \<Longrightarrow> suffix ''/'' (source_folder k)"
  by (simp add: source_folder_def suffix_def)

text \<open>
  Claim C2. \<open>matches_rule\<close> returns true exactly when the rule is enabled, the file-type
  gate passes, the pattern type is \<open>prefix\<close> or \<open>prefix_with_filename_filter\<close>, the folder
  path of the key is equal to \<open>source_pattern\<close> and, for \<open>prefix_with_filename_filter\<close>,
  the filename filter returns true on the filename. A rule with any other pattern type
  yields false whatever its other fields are. The folder path is the key without its
  final segment: folder path and final segment make up the key, the final segment has
  no \<open>'/'\<close>, the folder path of a key with a \<open>'/'\<close> ends with \<open>'/'\<close>, and that of a key
  without \<open>'/'\<close> is empty.
\<close>

theorem matches_rule_spec:
  "((matches_rule lower re source_key filename r = Inr True) \<longleftrightarrow>
      (get_or (enabled r) True
       \<and> check_file_type lower filename (get_or (file_types r) [])
       \<and> (get_or (pattern_type r) ''prefix'' = ''prefix''
            \<or> get_or (pattern_type r) ''prefix'' = ''prefix_with_filename_filter'')
       \<and> source_folder source_key = get_or (source_pattern r) []
       \<and> (get_or (pattern_type r) ''prefix'' = ''prefix_with_filename_filter'' \<longrightarrow>
            check_filename_filter lower re filename
              (get_or (filename_filter r) (FnFilter None None None None None)) = Inr True)))
   \<and> (get_or (pattern_type r) ''prefix'' \<noteq> ''prefix''
        \<and> get_or (pattern_type r) ''prefix'' \<noteq> ''prefix_with_filename_filter'' \<longrightarrow>
        matches_rule lower re source_key filename r = Inr False)
   \<and> source_folder source_key @ last (split (CHR ''/'') source_key) = source_key
   \<and> CHR ''/'' \<notin> set (last (split (CHR ''/'') source_key))
   \<and> (CHR ''/'' \<in> set source_key \<longrightarrow> suffix ''/'' (source_folder source_key))
   \<and> (CHR ''/'' \<notin> set source_key \<longrightarrow> source_folder source_key = [])"
proof -
  have a: "(matches_rule lower re source_key filename r = Inr True) \<longleftrightarrow>
      (get_or (enabled r) True
       \<and> check_file_type lower filename (get_or (file_types r) [])
       \<and> (get_or (pattern_type r) ''prefix'' = ''prefix''
            \<or> get_or (pattern_type r) ''prefix'' = ''prefix_with_filename_filter'')
       \<and> source_folder source_key = get_or (source_pattern r) []
       \<and> (get_or (pattern_type r) ''prefix'' = ''prefix_with_filename_filter'' \<longrightarrow>
            check_filename_filter lower re filename
              (get_or (filename_filter r) (FnFilter None None None None None)) = Inr True))"
    unfolding matches_rule_def Let_def valid_pattern_types_def by auto
  have b: "get_or (pattern_type r) ''prefix'' \<noteq> ''prefix''
        \<and> get_or (pattern_type r) ''prefix'' \<noteq> ''prefix_with_filename_filter'' \<longrightarrow>
        matches_rule lower re source_key filename r = Inr False"
    unfolding matches_rule_def Let_def valid_pattern_types_def by auto
  have c: "source_folder source_key @ last (split (CHR ''/'') source_key) = source_key"
    by (rule source_folder_filename)
  have d: "CHR ''/'' \<notin> set (last (split (CHR ''/'') source_key))"
    by (rule last_split_notin)
  have e: "CHR ''/'' \<in> set source_key \<longrightarrow> suffix ''/'' (source_folder source_key)"
    by (simp add: source_folder_suffix)
  have f: "CHR ''/'' \<notin> set source_key \<longrightarrow> source_folder source_key = []"
    by (simp add: source_folder_def)
  from a b c d e f show ?thesis by blast
qed

theorem matches_rule_spec_witness:
  "matches_rule lower_ascii re_literal ''Inbox/Data1.csv'' ''Data1.csv'' filtered_rule = Inr True
   \<and> matches_rule lower_ascii re_literal ''Inbox/Sub/file.csv'' ''file.csv'' inbox_rule \<noteq> Inr True
   \<and> matches_rule lower_ascii re_literal ''Inbox/Data1.csv'' ''Data1.csv'' glob_rule = Inr False
   \<and> suffix ''/'' (source_folder ''Inbox/Sub/file.csv'')
   \<and> source_folder ''data.csv'' = []"
proof -
  have g: "get_or (enabled filtered_rule) True"
    "get_or (file_types filtered_rule) [] = [''.csv'']"
    "get_or (pattern_type filtered_rule) ''prefix'' = ''prefix_with_filename_filter''"
    "get_or (source_pattern filtered_rule) [] = ''Inbox/''"
    "get_or (filename_filter filtered_rule) (FnFilter None None None None None)
       = FnFilter (Some ''starts_with'') None (Some ''Data'') None None"
    "get_or (source_pattern inbox_rule) [] = ''Inbox/''"
    "get_or (pattern_type glob_rule) ''prefix'' = ''glob''"
    by (simp_all add: filtered_rule_def inbox_rule_def glob_rule_def empty_rule_def get_or_def)
  have ev: "check_file_type lower_ascii ''Data1.csv'' [''.csv'']"
    "source_folder ''Inbox/Data1.csv'' = ''Inbox/''"
    "check_filename_filter lower_ascii re_literal ''Data1.csv''
       (FnFilter (Some ''starts_with'') None (Some ''Data'') None None) = Inr True"
    "source_folder ''Inbox/Sub/file.csv'' = ''Inbox/Sub/''"
    by code_simp+
  have sl: "CHR ''/'' \<in> set ''Inbox/Sub/file.csv''" "CHR ''/'' \<notin> set ''data.csv''"
    by simp_all
  have 1: "matches_rule lower_ascii re_literal ''Inbox/Data1.csv'' ''Data1.csv'' filtered_rule =
      Inr True"
    using matches_rule_spec[where lower = lower_ascii, of re_literal "''Inbox/Data1.csv''"
        "''Data1.csv''" filtered_rule,
        THEN conjunct1] g ev
    by simp
  have 2: "matches_rule lower_ascii re_literal ''Inbox/Sub/file.csv'' ''file.csv'' inbox_rule \<noteq>
      Inr True"
    using matches_rule_spec[where lower = lower_ascii, of re_literal "''Inbox/Sub/file.csv''"
        "''file.csv''" inbox_rule,
        THEN conjunct1] g ev
    by simp
  have 3: "matches_rule lower_ascii re_literal ''Inbox/Data1.csv'' ''Data1.csv'' glob_rule = Inr
      False"
    using matches_rule_spec[where lower = lower_ascii, of re_literal "''Inbox/Data1.csv''"
        "''Data1.csv''" glob_rule,
        THEN conjunct2, THEN conjunct1] g
    by simp
  have 4: "suffix ''/'' (source_folder ''Inbox/Sub/file.csv'')"
    using matches_rule_spec[where lower = lower_ascii, of re_literal "''Inbox/Sub/file.csv''"
        "''file.csv''" inbox_rule,
        THEN conjunct2, THEN conjunct2, THEN conjunct2, THEN conjunct2, THEN conjunct1] sl
    by blast
  have 5: "source_folder ''data.csv'' = []"
    using matches_rule_spec[where lower = lower_ascii, of re_literal "''data.csv''" "''data.csv''"
        inbox_rule,
        THEN conjunct2, THEN conjunct2, THEN conjunct2, THEN conjunct2, THEN conjunct2] sl
    by blast
  from 1 2 3 4 5 show ?thesis by blast
qed

section \<open>Rule matcher: misconfigured rules\<close>

text \<open>
  Claim C3, as amended. A rule whose pattern type is not a valid one yields false on
  every input and never raises, and so does any rule on a key that it does not reach
  (the rule is disabled, the file-type gate fails or the folder path differs). A rule of
  type \<open>prefix_with_filename_filter\<close> without a \<open>filename_filter\<close> is not rejected: the
  absent filter accepts every filename, so the rule matches every key that it reaches.
  On a key that the rule reaches, a filter of type \<open>starts_with\<close>, \<open>not_starts_with\<close>,
  \<open>ends_with\<close>, \<open>contains\<close> or \<open>regex\<close> without \<open>value\<close> raises \<open>KeyError\<close>, and a
  \<open>regex\<close> filter whose pattern does not compile raises the error of \<open>re.search\<close>;
  the exception leaves \<open>matches_rule\<close>.
\<close>

theorem misconfigured_rule_spec:
  "(get_or (pattern_type r) ''prefix'' \<notin> set valid_pattern_types \<longrightarrow>
      matches_rule lower re source_key filename r = Inr False)
   \<and> (\<not> (get_or (enabled r) True
           \<and> check_file_type lower filename (get_or (file_types r) [])
           \<and> source_folder source_key = get_or (source_pattern r) []) \<longrightarrow>
      matches_rule lower re source_key filename r = Inr False)
   \<and> (pattern_type r = Some ''prefix_with_filename_filter'' \<and> filename_filter r = None \<longrightarrow>
      matches_rule lower re source_key filename r =
        Inr (get_or (enabled r) True
             \<and> check_file_type lower filename (get_or (file_types r) [])
             \<and> source_folder source_key = get_or (source_pattern r) []))
   \<and> (get_or (enabled r) True
       \<and> check_file_type lower filename (get_or (file_types r) [])
       \<and> source_folder source_key = get_or (source_pattern r) []
       \<and> pattern_type r = Some ''prefix_with_filename_filter''
       \<and> filename_filter r = Some (FnFilter (Some t) cs None ps ml)
       \<and> t \<in> {''starts_with'', ''not_starts_with'', ''ends_with'', ''contains'', ''regex''} \<longrightarrow>
      matches_rule lower re source_key filename r = Inl (KeyError ''value''))
   \<and> (get_or (enabled r) True
       \<and> check_file_type lower filename (get_or (file_types r) [])
       \<and> source_folder source_key = get_or (source_pattern r) []
       \<and> pattern_type r = Some ''prefix_with_filename_filter''
       \<and> filename_filter r = Some (FnFilter (Some ''regex'') cs (Some pat) ps ml)
       \<and> re pat filename (\<not> get_or cs False) = Inl e \<longrightarrow>
      matches_rule lower re source_key filename r = Inl e)"
proof -
  have a: "get_or (pattern_type r) ''prefix'' \<notin> set valid_pattern_types \<longrightarrow>
      matches_rule lower re source_key filename r = Inr False"
    unfolding matches_rule_def Let_def by simp
  have b: "\<not> (get_or (enabled r) True
           \<and> check_file_type lower filename (get_or (file_types r) [])
           \<and> source_folder source_key = get_or (source_pattern r) []) \<longrightarrow>
      matches_rule lower re source_key filename r = Inr False"
    unfolding matches_rule_def Let_def by simp
  have c: "pattern_type r = Some ''prefix_with_filename_filter'' \<and> filename_filter r = None \<longrightarrow>
      matches_rule lower re source_key filename r =
        Inr (get_or (enabled r) True
             \<and> check_file_type lower filename (get_or (file_types r) [])
             \<and> source_folder source_key = get_or (source_pattern r) [])"
    unfolding matches_rule_def Let_def valid_pattern_types_def
    by (simp add: get_or_def check_filename_filter.simps(1))
  have nv: "t \<in> {''starts_with'', ''not_starts_with'', ''ends_with'', ''contains'', ''regex''} \<Longrightarrow>
      check_filename_filter lower re filename (FnFilter (Some t) cs None ps ml) = Inl (KeyError
          ''value'')"
    by (auto simp: check_filename_filter.simps(1) get_or_def subscript_def)
  have d: "get_or (enabled r) True
       \<and> check_file_type lower filename (get_or (file_types r) [])
       \<and> source_folder source_key = get_or (source_pattern r) []
       \<and> pattern_type r = Some ''prefix_with_filename_filter''
       \<and> filename_filter r = Some (FnFilter (Some t) cs None ps ml)
       \<and> t \<in> {''starts_with'', ''not_starts_with'', ''ends_with'', ''contains'', ''regex''} \<longrightarrow>
      matches_rule lower re source_key filename r = Inl (KeyError ''value'')"
    using nv unfolding matches_rule_def Let_def valid_pattern_types_def
    by (simp add: get_or_def)
  have rx: "check_filename_filter lower re filename (FnFilter (Some ''regex'') cs (Some pat) ps ml)
      = re pat filename (\<not> get_or cs False)"
    by (simp add: check_filename_filter.simps(1) get_or_def subscript_def)
  have e: "get_or (enabled r) True
       \<and> check_file_type lower filename (get_or (file_types r) [])
       \<and> source_folder source_key = get_or (source_pattern r) []
       \<and> pattern_type r = Some ''prefix_with_filename_filter''
       \<and> filename_filter r = Some (FnFilter (Some ''regex'') cs (Some pat) ps ml)
       \<and> re pat filename (\<not> get_or cs False) = Inl e \<longrightarrow>
      matches_rule lower re source_key filename r = Inl e"
    using rx unfolding matches_rule_def Let_def valid_pattern_types_def
    by (simp add: get_or_def)
  from a b c d e show ?thesis by blast
qed

theorem misconfigured_rule_spec_witness:
  "matches_rule lower_ascii re_literal ''Inbox/Data1.csv'' ''Data1.csv'' glob_rule = Inr False
   \<and> matches_rule lower_ascii re_literal ''Other/Data1.csv'' ''Data1.csv'' no_value_rule = Inr False
   \<and> matches_rule lower_ascii re_literal ''Inbox/Data1.csv'' ''Data1.csv'' no_filter_rule = Inr True
   \<and> matches_rule lower_ascii re_literal ''Inbox/Data1.csv'' ''Data1.csv'' no_value_rule
        = Inl (KeyError ''value'')
   \<and> matches_rule lower_ascii re_literal ''Inbox/Data1.csv'' ''Data1.csv'' bad_regex_rule
        = Inl (LibError ''missing ), unterminated subpattern at position 0'')"
proof -
  have g: "get_or (pattern_type glob_rule) ''prefix'' = ''glob''"
    "get_or (enabled no_value_rule) True" "get_or (enabled no_filter_rule) True"
    "get_or (enabled bad_regex_rule) True"
    "get_or (file_types no_value_rule) [] = [''.csv'']"
    "get_or (file_types no_filter_rule) [] = [''.csv'']"
    "get_or (file_types bad_regex_rule) [] = [''.csv'']"
    "get_or (source_pattern no_value_rule) [] = ''Inbox/''"
    "get_or (source_pattern no_filter_rule) [] = ''Inbox/''"
    "get_or (source_pattern bad_regex_rule) [] = ''Inbox/''"
    "pattern_type no_value_rule = Some ''prefix_with_filename_filter''"
    "pattern_type no_filter_rule = Some ''prefix_with_filename_filter''"
    "pattern_type bad_regex_rule = Some ''prefix_with_filename_filter''"
    "filename_filter no_filter_rule = None"
    "filename_filter no_value_rule = Some (FnFilter (Some ''starts_with'') None None None None)"
    "filename_filter bad_regex_rule = Some (FnFilter (Some ''regex'') None (Some ''('') None None)"
    by (simp_all add: glob_rule_def no_value_rule_def no_filter_rule_def bad_regex_rule_def
          inbox_rule_def empty_rule_def get_or_def)
  have ev: "check_file_type lower_ascii ''Data1.csv'' [''.csv'']"
    "source_folder ''Inbox/Data1.csv'' = ''Inbox/''"
    "source_folder ''Other/Data1.csv'' = ''Other/''"
    "re_literal ''('' ''Data1.csv'' (\<not> get_or None False)
       = Inl (LibError ''missing ), unterminated subpattern at position 0'')"
    by code_simp+
  have 1: "matches_rule lower_ascii re_literal ''Inbox/Data1.csv'' ''Data1.csv'' glob_rule = Inr
      False"
    using misconfigured_rule_spec[where lower = lower_ascii, of glob_rule re_literal
        "''Inbox/Data1.csv''" "''Data1.csv''",
        THEN conjunct1] g
    by (simp add: valid_pattern_types_def)
  have 2: "matches_rule lower_ascii re_literal ''Other/Data1.csv'' ''Data1.csv'' no_value_rule =
      Inr False"
    using misconfigured_rule_spec[where lower = lower_ascii, of no_value_rule re_literal
        "''Other/Data1.csv''" "''Data1.csv''",
        THEN conjunct2, THEN conjunct1] g ev
    by simp
  have 3: "matches_rule lower_ascii re_literal ''Inbox/Data1.csv'' ''Data1.csv'' no_filter_rule =
      Inr True"
    using misconfigured_rule_spec[where lower = lower_ascii, of no_filter_rule re_literal
        "''Inbox/Data1.csv''" "''Data1.csv''",
        THEN conjunct2, THEN conjunct2, THEN conjunct1] g ev
    by simp
  have 4: "matches_rule lower_ascii re_literal ''Inbox/Data1.csv'' ''Data1.csv'' no_value_rule
        = Inl (KeyError ''value'')"
    using misconfigured_rule_spec[where r = no_value_rule and lower = lower_ascii and re =
        re_literal
        and source_key = "''Inbox/Data1.csv''" and filename = "''Data1.csv''"
        and t = "''starts_with''" and cs = None and ps = None and ml = None,
        THEN conjunct2, THEN conjunct2, THEN conjunct2, THEN conjunct1] g ev
    by simp
  have 5: "matches_rule lower_ascii re_literal ''Inbox/Data1.csv'' ''Data1.csv'' bad_regex_rule
        = Inl (LibError ''missing ), unterminated subpattern at position 0'')"
    using misconfigured_rule_spec[where r = bad_regex_rule and lower = lower_ascii and re =
        re_literal
        and source_key = "''Inbox/Data1.csv''" and filename = "''Data1.csv''"
        and cs = None and ps = None and ml = None and pat = "''(''"
        and e = "LibError ''missing ), unterminated subpattern at position 0''",
        THEN conjunct2, THEN conjunct2, THEN conjunct2, THEN conjunct2] g ev
    by simp
  from 1 2 3 4 5 show ?thesis by blast
qed

text \<open>
  Claim C3 as stated fails: on a key of its folder, the rule whose filter lacks \<open>value\<close>
  and the rule whose pattern does not compile raise, and the rule without a filter
  matches.
\<close>

theorem misconfigured_rule_counterexample:
  "matches_rule lower_ascii re_literal ''Inbox/Data1.csv'' ''Data1.csv'' no_value_rule
     = Inl (KeyError ''value'')
   \<and> matches_rule lower_ascii re_literal ''Inbox/Data1.csv'' ''Data1.csv'' bad_regex_rule
     = Inl (LibError ''missing ), unterminated subpattern at position 0'')
   \<and> matches_rule lower_ascii re_literal ''Inbox/Data1.csv'' ''Data1.csv'' no_filter_rule = Inr
       True"
  by code_simp

section \<open>Object processor: the destination key\<close>

lemma rsplit1_unique:
  assumes "c \<notin> set ext"
  shows "rsplit1 c (stem @ c # ext) = (stem, ext)"
proof -
  have r: "rev (stem @ c # ext) = rev ext @ c # rev stem" by simp
  have t: "takeWhile (\<lambda>x. x \<noteq> c) (rev ext @ c # rev stem) = rev ext"
    using assms by (subst takeWhile_append2) auto
  have d: "dropWhile (\<lambda>x. x \<noteq> c) (rev ext @ c # rev stem) = c # rev stem"
    using assms by (subst dropWhile_append2) auto
  show ?thesis unfolding rsplit1_def r t d by simp
qed

lemma length_digits_1: "n < 10 \<Longrightarrow> length (digits n) = 1"
  by (subst digits.simps) simp

lemma length_digits_2: "10 \<le> n \<Longrightarrow> n < 100 \<Longrightarrow> length (digits n) = 2"
  by (subst digits.simps) (simp add: length_digits_1)

lemma length_digits_3: "100 \<le> n \<Longrightarrow> n < 1000 \<Longrightarrow> length (digits n) = 3"
  by (subst digits.simps) (simp add: length_digits_2)

lemma length_digits_4: "1000 \<le> n \<Longrightarrow> n < 10000 \<Longrightarrow> length (digits n) = 4"
  by (subst digits.simps) (simp add: length_digits_3)

lemma length_pad_2: "n < 100 \<Longrightarrow> length (pad 2 n) = 2"
  using length_digits_1[of n] length_digits_2[of n]
  by (cases "n < 10") (auto simp: pad_def)

lemma length_pad_4: "n < 10000 \<Longrightarrow> length (pad 4 n) = 4"
  using length_digits_1[of n] length_digits_2[of n] length_digits_3[of n] length_digits_4[of n]
  by (cases "n < 10"; cases "n < 100"; cases "n < 1000") (auto simp: pad_def)

lemma length_strftime:
  assumes "year d < 10000" "month d < 100" "day d < 100" "hour d < 100" "minute d < 100"
    "second d < 100"
  shows "length (strftime d) = 15 \<and> strftime d ! 8 = CHR ''_''"
  using assms by (simp add: strftime_def length_pad_2 length_pad_4 nth_append)

lemma destination_filename_ext:
  assumes "get_or (add_timestamp r) True" "ext \<noteq> []" "CHR ''.'' \<notin> set ext"
  shows "fst (destination_filename w s (stem @ ''.'' @ ext) r) =
           stem @ ''_'' @ strftime (now w (clock_reads s)) @ ''.'' @ ext"
  using assms rsplit1_unique[of "CHR ''.''" ext stem]
  by (simp add: destination_filename_def Let_def)

lemma destination_filename_no_dot:
  assumes "get_or (add_timestamp r) True" "CHR ''.'' \<notin> set filename"
  shows "fst (destination_filename w s filename r) =
           filename @ ''_'' @ strftime (now w (clock_reads s))"
  using assms by (simp add: destination_filename_def Let_def)

lemma destination_filename_trailing_dot:
  assumes "get_or (add_timestamp r) True"
  shows "fst (destination_filename w s (stem @ ''.'') r) =
           stem @ ''_'' @ strftime (now w (clock_reads s))"
  using assms rsplit1_unique[of "CHR ''.''" "[]" stem]
  by (simp add: destination_filename_def Let_def)

lemma destination_filename_off:
  "add_timestamp r = Some False \<Longrightarrow> fst (destination_filename w s filename r) = filename"
  by (simp add: destination_filename_def get_or_def)

lemma destination_filename_calls:
  "s3_calls (snd (destination_filename w s filename r)) = s3_calls s"
  by (simp add: destination_filename_def Let_def split: prod.splits)

lemma process_file_copy:
  assumes "destination_prefix r = Some p" "name r = Some n" "destination_bucket r = Some db"
  shows "(\<exists>md rest. s3_calls (snd (process_file w s b k r)) =
            s3_calls s @ CopyObject b k db
              (p @ fst (destination_filename w s (last (split (CHR ''/'') k)) r)) ''REPLACE'' md
              # rest)
         \<and> (\<forall>src dst ru pr. fst (process_file w s b k r) = Success src dst ru pr \<longrightarrow>
              dst = ''s3://'' @ db @ ''/'' @ p
                      @ fst (destination_filename w s (last (split (CHR ''/'') k)) r))"
proof -
  obtain dfn s1 where d: "destination_filename w s (last (split (CHR ''/'') k)) r = (dfn, s1)"
    by (cases "destination_filename w s (last (split (CHR ''/'') k)) r")
  have c: "s3_calls s1 = s3_calls s"
    using destination_filename_calls[of w s "last (split (CHR ''/'') k)" r] d by simp
  show ?thesis
    using assms c
    by (auto simp: process_file_def process_file_body_def d Let_def subscript_def
             split: sum.splits)
qed

text \<open>
  Claim C8, as amended. When \<open>add_timestamp\<close> is true or absent, the destination filename
  of a filename \<open>stem.ext\<close>, with \<open>ext\<close> not empty and free of \<open>'.'\<close>, is
  \<open>stem_T.ext\<close>, where \<open>T\<close> is the clock reading in the format \<open>%Y%m%d_%H%M%S\<close>; that of
  a filename without \<open>'.'\<close> is the filename followed by \<open>_T\<close>; and that of a filename
  \<open>stem.\<close> that ends with \<open>'.'\<close> is \<open>stem_T\<close>, without the dot. When \<open>add_timestamp\<close> is
  false, the filename is unchanged. \<open>T\<close> has fifteen characters, the ninth one \<open>'_'\<close>, for a
  year of at most four digits. When the rule has a destination prefix, a name and a
  destination bucket, the first request of \<open>process_file\<close> is the copy to the key
  \<open>destination_prefix\<close> followed by the destination filename of the final segment of the
  source key, and a success result reports that key.
\<close>

theorem destination_key_spec:
  "(get_or (add_timestamp r) True \<and> ext \<noteq> [] \<and> CHR ''.'' \<notin> set ext \<longrightarrow>
      fst (destination_filename w s (stem @ ''.'' @ ext) r) =
        stem @ ''_'' @ strftime (now w (clock_reads s)) @ ''.'' @ ext)
   \<and> (get_or (add_timestamp r) True \<and> CHR ''.'' \<notin> set filename \<longrightarrow>
      fst (destination_filename w s filename r) =
        filename @ ''_'' @ strftime (now w (clock_reads s)))
   \<and> (get_or (add_timestamp r) True \<longrightarrow>
      fst (destination_filename w s (stem @ ''.'') r) =
        stem @ ''_'' @ strftime (now w (clock_reads s)))
   \<and> (add_timestamp r = Some False \<longrightarrow> fst (destination_filename w s filename r) = filename)
   \<and> (year d < 10000 \<and> month d < 100 \<and> day d < 100 \<and> hour d < 100 \<and> minute d < 100
        \<and> second d < 100 \<longrightarrow>
      length (strftime d) = 15 \<and> strftime d ! 8 = CHR ''_'')
   \<and> (destination_prefix r = Some p \<and> name r = Some n \<and> destination_bucket r = Some db \<longrightarrow>
      (\<exists>md rest. s3_calls (snd (process_file w s b k r)) =
            s3_calls s @ CopyObject b k db
              (p @ fst (destination_filename w s (last (split (CHR ''/'') k)) r)) ''REPLACE'' md
              # rest)
      \<and> (\<forall>src dst ru pr. fst (process_file w s b k r) = Success src dst ru pr \<longrightarrow>
            dst = ''s3://'' @ db @ ''/'' @ p
                    @ fst (destination_filename w s (last (split (CHR ''/'') k)) r)))"
  using destination_filename_ext[of r ext w s stem]
    destination_filename_no_dot[of r filename w s]
    destination_filename_trailing_dot[of r w s stem]
    destination_filename_off[of r w s filename]
    length_strftime[of d]
    process_file_copy[of r p n db w s b k]
  by blast

theorem destination_key_spec_witness:
  "fst (destination_filename example_world initial_state ''a.tar.gz'' empty_rule)
     = ''a.tar_20240307_090530.gz''
   \<and> fst (destination_filename example_world initial_state ''report'' empty_rule)
     = ''report_20240307_090530''
   \<and> fst (destination_filename example_world initial_state ''report.'' empty_rule)
     = ''report_20240307_090530''
   \<and> fst (destination_filename example_world initial_state ''report.csv'' inbox_rule)
     = ''report.csv''
   \<and> length (strftime example_time) = 15
   \<and> fst (process_file example_world initial_state ''src'' ''Inbox/data.csv'' inbox_rule)
     = Success ''s3://src/Inbox/data.csv'' ''s3://dst/Out/data.csv'' ''inbox'' (Some 1)
   \<and> (\<exists>md rest.
        s3_calls (snd (process_file example_world initial_state ''src'' ''Inbox/data.csv''
                         inbox_rule))
          = CopyObject ''src'' ''Inbox/data.csv'' ''dst'' ''Out/data.csv'' ''REPLACE'' md # rest)"
proof -
  have ts: "strftime (now example_world (clock_reads initial_state)) = ''20240307_090530''"
    by code_simp
  have g: "get_or (add_timestamp empty_rule) True" "add_timestamp inbox_rule = Some False"
    "destination_prefix inbox_rule = Some ''Out/''" "name inbox_rule = Some ''inbox''"
    "destination_bucket inbox_rule = Some ''dst''"
    by (simp_all add: empty_rule_def inbox_rule_def get_or_def)
  have t: "year example_time < 10000 \<and> month example_time < 100 \<and> day example_time < 100
      \<and> hour example_time < 100 \<and> minute example_time < 100 \<and> second example_time < 100"
    by (simp add: example_time_def)
  have fn: "last (split (CHR ''/'') ''Inbox/data.csv'') = ''data.csv''"
    by code_simp
  have res: "fst (process_file example_world initial_state ''src'' ''Inbox/data.csv'' inbox_rule)
     = Success ''s3://src/Inbox/data.csv'' ''s3://dst/Out/data.csv'' ''inbox'' (Some 1)"
    by code_simp
  have dfn: "fst (destination_filename example_world initial_state ''data.csv'' inbox_rule)
      = ''data.csv''"
    by code_simp
  have c0: "s3_calls initial_state = []"
    by (simp add: initial_state_def)
  note S = destination_key_spec[where w = example_world and s = initial_state]
  have 1: "fst (destination_filename example_world initial_state ''a.tar.gz'' empty_rule)
     = ''a.tar_20240307_090530.gz''"
    using S[where r = empty_rule and stem = "''a.tar''" and ext = "''gz''", THEN conjunct1] g ts
    by simp
  have 2: "fst (destination_filename example_world initial_state ''report'' empty_rule)
     = ''report_20240307_090530''"
    using S[where r = empty_rule and filename = "''report''", THEN conjunct2, THEN conjunct1] g ts
    by simp
  have 3: "fst (destination_filename example_world initial_state ''report.'' empty_rule)
     = ''report_20240307_090530''"
    using S[where r = empty_rule and stem = "''report''",
        THEN conjunct2, THEN conjunct2, THEN conjunct1] g ts
    by simp
  have 4: "fst (destination_filename example_world initial_state ''report.csv'' inbox_rule)
     = ''report.csv''"
    using S[where r = inbox_rule and filename = "''report.csv''",
        THEN conjunct2, THEN conjunct2, THEN conjunct2, THEN conjunct1] g
    by simp
  have 5: "length (strftime example_time) = 15"
    using S[where d = example_time,
        THEN conjunct2, THEN conjunct2, THEN conjunct2, THEN conjunct2, THEN conjunct1] t
    by simp
  have 6: "\<exists>md rest.
        s3_calls (snd (process_file example_world initial_state ''src'' ''Inbox/data.csv''
                         inbox_rule))
          = CopyObject ''src'' ''Inbox/data.csv'' ''dst'' ''Out/data.csv'' ''REPLACE'' md # rest"
    using S[where r = inbox_rule and p = "''Out/''" and n = "''inbox''" and db = "''dst''"
          and b = "''src''" and k = "''Inbox/data.csv''" and filename = "''data.csv''",
        THEN conjunct2, THEN conjunct2, THEN conjunct2, THEN conjunct2, THEN conjunct2]
      g dfn c0
    unfolding fn
    by simp
  from 1 2 3 4 5 res 6 show ?thesis by blast
qed

text \<open>
  Claim C8 as stated fails on a filename that ends with \<open>'.'\<close>: the destination filename
  of \<open>report.\<close> is not \<open>report.\<close> with the suffix inserted, the dot is dropped.
\<close>

theorem destination_key_counterexample:
  "fst (destination_filename example_world initial_state ''report.'' empty_rule)
     = ''report_20240307_090530''
   \<and> fst (destination_filename example_world initial_state ''report.'' empty_rule)
     \<noteq> ''report_20240307_090530.''
   \<and> fst (process_file example_world initial_state ''src'' ''Inbox/report.''
            stamping_rule)
     = Success ''s3://src/Inbox/report.'' ''s3://dst/Out/report_20240307_090530'' ''inbox''
         (Some 1)"
  by code_simp

section \<open>Routing config cache: reuse and reload\<close>

lemma count_list_insort_key: "count_list (insort_key f x xs) y = count_list (x # xs) y"
  by (induction xs) auto

lemma count_list_sort_key: "count_list (sort_key f xs) y = count_list xs y"
  by (induction xs) (auto simp: count_list_insort_key)

lemma load_hit:
  assumes "head_object w (s3_calls s) (config_bucket w) (config_key w) = Inr lm"
    and "cached_config s = Some cfg" "cfg \<noteq> []" "config_last_modified s = Some clm" "lm \<le> clm"
  shows "load_routing_config w s =
           (cfg, s\<lparr>s3_calls := s3_calls s @ [HeadObject (config_bucket w) (config_key w)]\<rparr>)"
  using assms by (simp add: load_routing_config_def cache_is_current_def Let_def)

lemma load_miss:
  assumes "head_object w (s3_calls s) (config_bucket w) (config_key w) = Inr lm"
    and "cached_config s = None \<or> config_last_modified s = None
         \<or> (\<exists>clm. config_last_modified s = Some clm \<and> clm < lm)"
    and "get_object w (s3_calls s @ [HeadObject (config_bucket w) (config_key w)])
           (config_bucket w) (config_key w) = Inr content"
    and "json_loads w content = Inr parsed"
  shows "load_routing_config w s =
           (sort_key sort_priority parsed,
            s\<lparr>s3_calls := s3_calls s @
                    [HeadObject (config_bucket w) (config_key w),
                     GetObject (config_bucket w) (config_key w)],
               cached_config := Some (sort_key sort_priority parsed),
               config_last_modified := Some lm\<rparr>)"
  using assms
  by (auto simp: load_routing_config_def cache_is_current_def Let_def split: option.splits)

lemma sorted_positions:
  assumes "sorted (map f xs)" "i < length xs" "j < length xs" "f (xs ! i) < f (xs ! j)"
  shows "i < j"
proof (rule ccontr)
  assume "\<not> i < j"
  then have "j \<le> i" by simp
  have "i < length (map f xs)" using assms(2) by simp
  with assms(1) \<open>j \<le> i\<close> have "map f xs ! j \<le> map f xs ! i"
    by (rule sorted_nth_mono)
  then show False using assms(2,3,4) by simp
qed

lemma sort_priority_order:
  "i < length (sort_key sort_priority parsed) \<Longrightarrow> j < length (sort_key sort_priority parsed) \<Longrightarrow>
   sort_priority (sort_key sort_priority parsed ! i) < sort_priority (sort_key sort_priority
       parsed ! j)
   \<Longrightarrow> i < j"
  using sorted_positions[OF sorted_sort_key[of sort_priority parsed]] by blast

lemma sort_priority_sentinel:
  "(sort_priority x = 999) = (priority x = None \<or> priority x = Some 999)"
  by (cases "priority x") (auto simp: sort_priority_def get_or_def)

lemma sort_priority_ties:
  "filter (\<lambda>x. priority x = None \<or> priority x = Some 999) (sort_key sort_priority parsed)
     = filter (\<lambda>x. priority x = None \<or> priority x = Some 999) parsed"
  using sort_key_stable[of sort_priority 999 parsed]
  by (simp add: sort_priority_sentinel)

text \<open>
  Claim C4, as amended. When the store answers the head request with the modification
  time \<open>lm\<close>: if the cache holds a non-empty rule set whose recorded time is at least
  \<open>lm\<close>, the loader returns that rule set, and its only effect is the head request (no
  fetch, the cache as it was, the parser not consulted); if there is no cached rule set,
  or its recorded time is less than \<open>lm\<close>, and the document is fetched and parsed, the
  loader returns the parsed rules sorted by priority, having issued the head and the get
  request and stored the sorted rules with \<open>lm\<close> in the cache. The sort is ascending in
  the sort key, a permutation, and stable: rules of equal key keep their order. The sort
  key of a rule is its priority, and 999 for a rule without priority. So in the sorted
  list a rule of lesser priority comes before a rule of greater priority, a rule of
  priority below 999 comes before every rule without priority, a rule without priority
  comes before every rule of priority above 999, and the rules without priority and the
  rules of priority 999 keep among themselves the order that they have in the document.
\<close>

theorem load_routing_config_spec:
  "(head_object w (s3_calls s) (config_bucket w) (config_key w) = Inr lm
      \<and> cached_config s = Some cfg \<and> cfg \<noteq> [] \<and> config_last_modified s = Some clm
      \<and> lm \<le> clm \<longrightarrow>
      load_routing_config w s =
        (cfg, s\<lparr>s3_calls := s3_calls s @ [HeadObject (config_bucket w) (config_key w)]\<rparr>))
   \<and> (head_object w (s3_calls s) (config_bucket w) (config_key w) = Inr lm
      \<and> (cached_config s = None \<or> config_last_modified s = None
           \<or> (\<exists>clm. config_last_modified s = Some clm \<and> clm < lm))
      \<and> get_object w (s3_calls s @ [HeadObject (config_bucket w) (config_key w)])
           (config_bucket w) (config_key w) = Inr content
      \<and> json_loads w content = Inr parsed \<longrightarrow>
      load_routing_config w s =
        (sort_key sort_priority parsed,
         s\<lparr>s3_calls := s3_calls s @
                 [HeadObject (config_bucket w) (config_key w),
                  GetObject (config_bucket w) (config_key w)],
            cached_config := Some (sort_key sort_priority parsed),
            config_last_modified := Some lm\<rparr>))
   \<and> sorted (map sort_priority (sort_key sort_priority parsed))
   \<and> (\<forall>x. count_list (sort_key sort_priority parsed) x = count_list parsed x)
   \<and> (\<forall>p. filter (\<lambda>x. sort_priority x = p) (sort_key sort_priority parsed)
            = filter (\<lambda>x. sort_priority x = p) parsed)
   \<and> sort_priority r = (case priority r of None \<Rightarrow> 999 | Some p \<Rightarrow> p)
   \<and> (i < length (sort_key sort_priority parsed) \<and> j < length (sort_key sort_priority parsed)
        \<and> priority (sort_key sort_priority parsed ! i) = Some p
        \<and> priority (sort_key sort_priority parsed ! j) = Some q \<and> p < q \<longrightarrow> i < j)
   \<and> (i < length (sort_key sort_priority parsed) \<and> j < length (sort_key sort_priority parsed)
        \<and> priority (sort_key sort_priority parsed ! i) = Some p \<and> p < 999
        \<and> priority (sort_key sort_priority parsed ! j) = None \<longrightarrow> i < j)
   \<and> (i < length (sort_key sort_priority parsed) \<and> j < length (sort_key sort_priority parsed)
        \<and> priority (sort_key sort_priority parsed ! i) = None
        \<and> priority (sort_key sort_priority parsed ! j) = Some q \<and> 999 < q \<longrightarrow> i < j)
   \<and> filter (\<lambda>x. priority x = None \<or> priority x = Some 999) (sort_key sort_priority parsed)
        = filter (\<lambda>x. priority x = None \<or> priority x = Some 999) parsed"
proof -
  let ?rs = "sort_key sort_priority parsed"
  have a: "head_object w (s3_calls s) (config_bucket w) (config_key w) = Inr lm
      \<and> cached_config s = Some cfg \<and> cfg \<noteq> [] \<and> config_last_modified s = Some clm
      \<and> lm \<le> clm \<longrightarrow>
      load_routing_config w s =
        (cfg, s\<lparr>s3_calls := s3_calls s @ [HeadObject (config_bucket w) (config_key w)]\<rparr>)"
    using load_hit[of w s lm cfg clm] by blast
  have b: "head_object w (s3_calls s) (config_bucket w) (config_key w) = Inr lm
      \<and> (cached_config s = None \<or> config_last_modified s = None
           \<or> (\<exists>clm. config_last_modified s = Some clm \<and> clm < lm))
      \<and> get_object w (s3_calls s @ [HeadObject (config_bucket w) (config_key w)])
           (config_bucket w) (config_key w) = Inr content
      \<and> json_loads w content = Inr parsed \<longrightarrow>
      load_routing_config w s =
        (?rs,
         s\<lparr>s3_calls := s3_calls s @
                 [HeadObject (config_bucket w) (config_key w),
                  GetObject (config_bucket w) (config_key w)],
            cached_config := Some ?rs,
            config_last_modified := Some lm\<rparr>)"
    using load_miss[of w s lm content parsed] by blast
  have c: "sorted (map sort_priority ?rs)"
    by (rule sorted_sort_key)
  have d: "\<forall>x. count_list ?rs x = count_list parsed x"
    by (simp add: count_list_sort_key)
  have e: "\<forall>p. filter (\<lambda>x. sort_priority x = p) ?rs = filter (\<lambda>x. sort_priority x = p) parsed"
    by (simp add: sort_key_stable)
  have f: "sort_priority r = (case priority r of None \<Rightarrow> 999 | Some p \<Rightarrow> p)"
    by (simp add: sort_priority_def get_or_def)
  have g: "i < length ?rs \<and> j < length ?rs \<and> priority (?rs ! i) = Some p
        \<and> priority (?rs ! j) = Some q \<and> p < q \<longrightarrow> i < j"
    using sort_priority_order[of i parsed j] by (auto simp: sort_priority_def get_or_def)
  have h: "i < length ?rs \<and> j < length ?rs \<and> priority (?rs ! i) = Some p \<and> p < 999
        \<and> priority (?rs ! j) = None \<longrightarrow> i < j"
    using sort_priority_order[of i parsed j] by (auto simp: sort_priority_def get_or_def)
  have k: "i < length ?rs \<and> j < length ?rs \<and> priority (?rs ! i) = None
        \<and> priority (?rs ! j) = Some q \<and> 999 < q \<longrightarrow> i < j"
    using sort_priority_order[of i parsed j] by (auto simp: sort_priority_def get_or_def)
  have t: "filter (\<lambda>x. priority x = None \<or> priority x = Some 999) ?rs
        = filter (\<lambda>x. priority x = None \<or> priority x = Some 999) parsed"
    by (rule sort_priority_ties)
  from a b c d e f g h k t show ?thesis by blast
qed

theorem load_routing_config_spec_witness:
  "load_routing_config example_world cached_state =
     ([inbox_rule],
      cached_state\<lparr>s3_calls := [HeadObject [] ''config/routing-rules.json'']\<rparr>)
   \<and> load_routing_config ranking_world initial_state =
     ([inbox_rule, filtered_rule, unranked_rule, late_rule],
      initial_state\<lparr>s3_calls := [HeadObject [] ''config/routing-rules.json'',
                                  GetObject [] ''config/routing-rules.json''],
        cached_config := Some [inbox_rule, filtered_rule, unranked_rule, late_rule],
        config_last_modified := Some 100\<rparr>)
   \<and> fst (load_routing_config tie_world initial_state)
       = [inbox_rule, unranked_rule, sentinel_rule]
   \<and> priority unranked_rule = None \<and> priority sentinel_rule = Some 999
   \<and> priority inbox_rule = Some 1 \<and> priority late_rule = Some 1000
   \<and> sort_key sort_priority [late_rule, unranked_rule, inbox_rule, filtered_rule] ! 0
       = inbox_rule
   \<and> sort_key sort_priority [late_rule, unranked_rule, inbox_rule, filtered_rule] ! 2
       = unranked_rule
   \<and> sort_key sort_priority [late_rule, unranked_rule, inbox_rule, filtered_rule] ! 3
       = late_rule
   \<and> (0::nat) < 2 \<and> (2::nat) < 3 \<and> (0::nat) < 3"
proof -
  have k: "config_bucket example_world = []"
    "config_key example_world = ''config/routing-rules.json''"
    "config_bucket ranking_world = []"
    "config_key ranking_world = ''config/routing-rules.json''"
    "config_bucket tie_world = []"
    "config_key tie_world = ''config/routing-rules.json''"
    by (simp_all add: config_bucket_def config_key_def example_world_def ranking_world_def
          tie_world_def get_or_def)
  have h: "head_object example_world (s3_calls cached_state) [] ''config/routing-rules.json''
      = Inr 100"
    "head_object ranking_world (s3_calls initial_state) [] ''config/routing-rules.json''
      = Inr 100"
    "get_object ranking_world
       (s3_calls initial_state @ [HeadObject [] ''config/routing-rules.json''])
       [] ''config/routing-rules.json'' = Inr ''rules''"
    "json_loads ranking_world ''rules'' = Inr [late_rule, unranked_rule, inbox_rule, filtered_rule]"
    "head_object tie_world (s3_calls initial_state) [] ''config/routing-rules.json''
      = Inr 100"
    "get_object tie_world
       (s3_calls initial_state @ [HeadObject [] ''config/routing-rules.json''])
       [] ''config/routing-rules.json'' = Inr ''rules''"
    "json_loads tie_world ''rules'' = Inr [unranked_rule, sentinel_rule, inbox_rule]"
    by (simp_all add: example_world_def ranking_world_def tie_world_def)
  have c: "cached_config cached_state = Some [inbox_rule]"
    "config_last_modified cached_state = Some 100" "s3_calls cached_state = []"
    "cached_config initial_state = None" "s3_calls initial_state = []"
    by (simp_all add: cached_state_def initial_state_def)
  have srt: "sort_key sort_priority [late_rule, unranked_rule, inbox_rule, filtered_rule]
      = [inbox_rule, filtered_rule, unranked_rule, late_rule]"
    "sort_key sort_priority [unranked_rule, sentinel_rule, inbox_rule]
      = [inbox_rule, unranked_rule, sentinel_rule]"
    by code_simp+
  have pr: "priority unranked_rule = None" "priority sentinel_rule = Some 999"
    "priority inbox_rule = Some 1" "priority late_rule = Some 1000"
    by (simp_all add: unranked_rule_def sentinel_rule_def late_rule_def inbox_rule_def)
  have 1: "load_routing_config example_world cached_state =
     ([inbox_rule],
      cached_state\<lparr>s3_calls := [HeadObject [] ''config/routing-rules.json'']\<rparr>)"
    using load_routing_config_spec[where w = example_world and s = cached_state
        and lm = 100 and cfg = "[inbox_rule]" and clm = 100, THEN conjunct1] h c
    unfolding k by simp
  have 2: "load_routing_config ranking_world initial_state =
     ([inbox_rule, filtered_rule, unranked_rule, late_rule],
      initial_state\<lparr>s3_calls := [HeadObject [] ''config/routing-rules.json'',
                                  GetObject [] ''config/routing-rules.json''],
        cached_config := Some [inbox_rule, filtered_rule, unranked_rule, late_rule],
        config_last_modified := Some 100\<rparr>)"
    using load_routing_config_spec[where w = ranking_world and s = initial_state
        and lm = 100 and content = "''rules''"
        and parsed = "[late_rule, unranked_rule, inbox_rule, filtered_rule]",
        THEN conjunct2, THEN conjunct1] h c
    unfolding k srt by simp
  have 3: "fst (load_routing_config tie_world initial_state)
       = [inbox_rule, unranked_rule, sentinel_rule]"
    using load_routing_config_spec[where w = tie_world and s = initial_state
        and lm = 100 and content = "''rules''"
        and parsed = "[unranked_rule, sentinel_rule, inbox_rule]",
        THEN conjunct2, THEN conjunct1] h c
    unfolding k srt by simp
  have n: "sort_key sort_priority [late_rule, unranked_rule, inbox_rule, filtered_rule] ! 0
       = inbox_rule"
    "sort_key sort_priority [late_rule, unranked_rule, inbox_rule, filtered_rule] ! 2
       = unranked_rule"
    "sort_key sort_priority [late_rule, unranked_rule, inbox_rule, filtered_rule] ! 3
       = late_rule"
    "length (sort_key sort_priority [late_rule, unranked_rule, inbox_rule, filtered_rule]) = 4"
    unfolding srt by simp_all
  have 4: "(0::nat) < 3"
    using load_routing_config_spec[where
        parsed = "[late_rule, unranked_rule, inbox_rule, filtered_rule]"
        and i = 0 and j = 3 and p = 1 and q = 1000,
        THEN conjunct2, THEN conjunct2, THEN conjunct2, THEN conjunct2, THEN conjunct2,
        THEN conjunct2, THEN conjunct1] n pr
    by simp
  have 5: "(0::nat) < 2"
    using load_routing_config_spec[where
        parsed = "[late_rule, unranked_rule, inbox_rule, filtered_rule]"
        and i = 0 and j = 2 and p = 1,
        THEN conjunct2, THEN conjunct2, THEN conjunct2, THEN conjunct2, THEN conjunct2,
        THEN conjunct2, THEN conjunct2, THEN conjunct1] n pr
    by simp
  have 6: "(2::nat) < 3"
    using load_routing_config_spec[where
        parsed = "[late_rule, unranked_rule, inbox_rule, filtered_rule]"
        and i = 2 and j = 3 and q = 1000,
        THEN conjunct2, THEN conjunct2, THEN conjunct2, THEN conjunct2, THEN conjunct2,
        THEN conjunct2, THEN conjunct2, THEN conjunct2, THEN conjunct1] n pr
    by simp
  from 1 2 3 pr n(1,2,3) 4 5 6 show ?thesis by blast
qed

text \<open>
  Claim C4 as stated fails on a document with a priority above the sentinel: the rule
  without priority is sorted before the rule of priority 1000, so it does not have the
  lowest precedence.
\<close>

theorem load_routing_config_sentinel_counterexample:
  "fst (load_routing_config ranking_world initial_state)
     = [inbox_rule, filtered_rule, unranked_rule, late_rule]
   \<and> priority unranked_rule = None \<and> priority late_rule = Some 1000"
  by code_simp

text \<open>
  A cached rule set that is empty is not reused, since an empty list is false in
  \<open>cached_config and \<dots>\<close>: the document is fetched again although its modification
  time has not advanced.
\<close>

lemma empty_cache_is_fetched_again:
  "s3_calls (snd (load_routing_config example_world
       (initial_state\<lparr>cached_config := Some [], config_last_modified := Some 100\<rparr>)))
     = [HeadObject [] ''config/routing-rules.json'', GetObject [] ''config/routing-rules.json'']"
  by code_simp

section \<open>Routing config cache: failures\<close>

lemma process_records_no_rules:
  "process_records w [] recs s done errs = (Inr (done, errs), s)"
  by (induction recs) (auto simp: find_best_destination_def Let_def)

lemma load_fail:
  assumes "(\<exists>e. head_object w (s3_calls s) (config_bucket w) (config_key w) = Inl e)
     \<or> (\<exists>lm. head_object w (s3_calls s) (config_bucket w) (config_key w) = Inr lm
          \<and> \<not> cache_is_current s lm
          \<and> ((\<exists>e. get_object w (s3_calls s @ [HeadObject (config_bucket w) (config_key w)])
                      (config_bucket w) (config_key w) = Inl e)
             \<or> (\<exists>content e.
                   get_object w (s3_calls s @ [HeadObject (config_bucket w) (config_key w)])
                     (config_bucket w) (config_key w) = Inr content
                   \<and> json_loads w content = Inl e)))"
  shows "fst (load_routing_config w s) = []
         \<and> cached_config (snd (load_routing_config w s)) = cached_config s
         \<and> config_last_modified (snd (load_routing_config w s)) = config_last_modified s"
  using assms
  by (auto simp: load_routing_config_def cache_is_current_def Let_def split: option.splits)

lemma lambda_handler_no_rules:
  assumes "fst (load_routing_config w s) = []"
  shows "lambda_handler w s event =
           (Inr \<lparr>statusCode = 200, processed_files = 0, errors = 0, successful = [],
                 failed = []\<rparr>,
            snd (load_routing_config w s))"
proof -
  obtain rules s1 where l: "load_routing_config w s = (rules, s1)"
    by (cases "load_routing_config w s")
  with assms have "rules = []" by simp
  then show ?thesis
    by (simp add: lambda_handler_def l process_records_no_rules)
qed

text \<open>
  Claim C5. When loading the configuration fails (the head request raises; or it
  succeeds, the cache is not current, and the get request raises or the document does
  not parse), the loader returns the empty rule set, which is not the rule list of
  \<open>get_fallback_config\<close>, and leaves the cache as it was; and the handler returns, for
  any batch, the summary with status 200, no success and no failure, having issued no
  request beyond those of the loader.
\<close>

theorem load_failure_spec:
  "((\<exists>e. head_object w (s3_calls s) (config_bucket w) (config_key w) = Inl e)
     \<or> (\<exists>lm. head_object w (s3_calls s) (config_bucket w) (config_key w) = Inr lm
          \<and> \<not> cache_is_current s lm
          \<and> ((\<exists>e. get_object w (s3_calls s @ [HeadObject (config_bucket w) (config_key w)])
                      (config_bucket w) (config_key w) = Inl e)
             \<or> (\<exists>content e.
                   get_object w (s3_calls s @ [HeadObject (config_bucket w) (config_key w)])
                     (config_bucket w) (config_key w) = Inr content
                   \<and> json_loads w content = Inl e)))) \<longrightarrow>
   fst (load_routing_config w s) = []
   \<and> fst (load_routing_config w s) \<noteq> get_fallback_config
   \<and> cached_config (snd (load_routing_config w s)) = cached_config s
   \<and> config_last_modified (snd (load_routing_config w s)) = config_last_modified s
   \<and> lambda_handler w s event =
       (Inr \<lparr>statusCode = 200, processed_files = 0, errors = 0, successful = [],
             failed = []\<rparr>,
        snd (load_routing_config w s))"
proof
  assume f: "(\<exists>e. head_object w (s3_calls s) (config_bucket w) (config_key w) = Inl e)
     \<or> (\<exists>lm. head_object w (s3_calls s) (config_bucket w) (config_key w) = Inr lm
          \<and> \<not> cache_is_current s lm
          \<and> ((\<exists>e. get_object w (s3_calls s @ [HeadObject (config_bucket w) (config_key w)])
                      (config_bucket w) (config_key w) = Inl e)
             \<or> (\<exists>content e.
                   get_object w (s3_calls s @ [HeadObject (config_bucket w) (config_key w)])
                     (config_bucket w) (config_key w) = Inr content
                   \<and> json_loads w content = Inl e)))"
  note l = load_fail[OF f]
  have e: "fst (load_routing_config w s) = []"
    using l by simp
  have n: "fst (load_routing_config w s) \<noteq> get_fallback_config"
    unfolding e by (simp add: get_fallback_config_def)
  show "fst (load_routing_config w s) = []
   \<and> fst (load_routing_config w s) \<noteq> get_fallback_config
   \<and> cached_config (snd (load_routing_config w s)) = cached_config s
   \<and> config_last_modified (snd (load_routing_config w s)) = config_last_modified s
   \<and> lambda_handler w s event =
       (Inr \<lparr>statusCode = 200, processed_files = 0, errors = 0, successful = [],
             failed = []\<rparr>,
        snd (load_routing_config w s))"
    using l n lambda_handler_no_rules[OF e] by simp
qed

theorem load_failure_spec_witness:
  "fst (lambda_handler unreachable_world cached_state data_event) =
     Inr \<lparr>statusCode = 200, processed_files = 0, errors = 0, successful = [], failed = []\<rparr>
   \<and> fst (lambda_handler unfetchable_world initial_state data_event) =
     Inr \<lparr>statusCode = 200, processed_files = 0, errors = 0, successful = [], failed = []\<rparr>
   \<and> fst (lambda_handler unparsable_world initial_state data_event) =
     Inr \<lparr>statusCode = 200, processed_files = 0, errors = 0, successful = [], failed = []\<rparr>
   \<and> fst (load_routing_config unreachable_world cached_state) = []
   \<and> cached_config (snd (load_routing_config unreachable_world cached_state))
       = Some [inbox_rule]"
proof -
  have k: "config_bucket unreachable_world = []"
    "config_key unreachable_world = ''config/routing-rules.json''"
    "config_bucket unfetchable_world = []"
    "config_key unfetchable_world = ''config/routing-rules.json''"
    "config_bucket unparsable_world = []"
    "config_key unparsable_world = ''config/routing-rules.json''"
    by (simp_all add: config_bucket_def config_key_def example_world_def unreachable_world_def
          unfetchable_world_def unparsable_world_def get_or_def)
  have h1: "head_object unreachable_world (s3_calls cached_state) []
      ''config/routing-rules.json'' = Inl (LibError ''Could not connect'')"
    by (simp add: unreachable_world_def)
  have h2: "head_object unfetchable_world (s3_calls initial_state) []
      ''config/routing-rules.json'' = Inr 100"
    "\<not> cache_is_current initial_state 100"
    "get_object unfetchable_world
       (s3_calls initial_state @ [HeadObject [] ''config/routing-rules.json''])
       [] ''config/routing-rules.json'' = Inl (LibError ''Access Denied'')"
    by (simp_all add: unfetchable_world_def example_world_def initial_state_def
          cache_is_current_def)
  have h3: "head_object unparsable_world (s3_calls initial_state) []
      ''config/routing-rules.json'' = Inr 100"
    "get_object unparsable_world
       (s3_calls initial_state @ [HeadObject [] ''config/routing-rules.json''])
       [] ''config/routing-rules.json'' = Inr ''{''"
    "json_loads unparsable_world ''{''
       = Inl (LibError ''Expecting value: line 1 column 1 (char 0)'')"
    by (simp_all add: unparsable_world_def example_world_def)
  have c: "cached_config cached_state = Some [inbox_rule]"
    by (simp add: cached_state_def)
  have f1: "(\<exists>e. head_object unreachable_world (s3_calls cached_state)
      (config_bucket unreachable_world) (config_key unreachable_world) = Inl e)"
    unfolding k using h1 by blast
  have f2: "\<exists>lm. head_object unfetchable_world (s3_calls initial_state)
        (config_bucket unfetchable_world) (config_key unfetchable_world) = Inr lm
      \<and> \<not> cache_is_current initial_state lm
      \<and> ((\<exists>e. get_object unfetchable_world
                 (s3_calls initial_state @
                    [HeadObject (config_bucket unfetchable_world) (config_key unfetchable_world)])
                 (config_bucket unfetchable_world) (config_key unfetchable_world) = Inl e)
          \<or> (\<exists>content e. get_object unfetchable_world
                 (s3_calls initial_state @
                    [HeadObject (config_bucket unfetchable_world) (config_key unfetchable_world)])
                 (config_bucket unfetchable_world) (config_key unfetchable_world) = Inr content
               \<and> json_loads unfetchable_world content = Inl e))"
    unfolding k using h2 by blast
  have f3: "\<exists>lm. head_object unparsable_world (s3_calls initial_state)
        (config_bucket unparsable_world) (config_key unparsable_world) = Inr lm
      \<and> \<not> cache_is_current initial_state lm
      \<and> ((\<exists>e. get_object unparsable_world
                 (s3_calls initial_state @
                    [HeadObject (config_bucket unparsable_world) (config_key unparsable_world)])
                 (config_bucket unparsable_world) (config_key unparsable_world) = Inl e)
          \<or> (\<exists>content e. get_object unparsable_world
                 (s3_calls initial_state @
                    [HeadObject (config_bucket unparsable_world) (config_key unparsable_world)])
                 (config_bucket unparsable_world) (config_key unparsable_world) = Inr content
               \<and> json_loads unparsable_world content = Inl e))"
    unfolding k using h2(2) h3 by blast
  have 1: "fst (lambda_handler unreachable_world cached_state data_event) =
     Inr \<lparr>statusCode = 200, processed_files = 0, errors = 0, successful = [], failed = []\<rparr>"
    "fst (load_routing_config unreachable_world cached_state) = []"
    "cached_config (snd (load_routing_config unreachable_world cached_state))
       = Some [inbox_rule]"
    using load_failure_spec[of unreachable_world cached_state data_event] f1 c by simp_all
  have 2: "fst (lambda_handler unfetchable_world initial_state data_event) =
     Inr \<lparr>statusCode = 200, processed_files = 0, errors = 0, successful = [], failed = []\<rparr>"
    using load_failure_spec[of unfetchable_world initial_state data_event] f2 by simp
  have 3: "fst (lambda_handler unparsable_world initial_state data_event) =
     Inr \<lparr>statusCode = 200, processed_files = 0, errors = 0, successful = [], failed = []\<rparr>"
    using load_failure_spec[of unparsable_world initial_state data_event] f3 by simp
  from 1 2 3 show ?thesis by blast
qed

section \<open>Handler: the loop over the records\<close>

lemma step_skip:
  "unquote_plus w (object_key rec) = config_key w \<Longrightarrow>
   process_records w rules (rec # recs) s done errs = process_records w rules recs s done errs"
  by simp

lemma step_none:
  "unquote_plus w (object_key rec) \<noteq> config_key w \<Longrightarrow>
   find_best_destination (str_lower w) (re_search w) (unquote_plus w (object_key rec)) rules = Inr
       None \<Longrightarrow>
   process_records w rules (rec # recs) s done errs = process_records w rules recs s done errs"
  by simp

lemma step_raise:
  "unquote_plus w (object_key rec) \<noteq> config_key w \<Longrightarrow>
   find_best_destination (str_lower w) (re_search w) (unquote_plus w (object_key rec)) rules = Inl
       e \<Longrightarrow>
   process_records w rules (rec # recs) s done errs = (Inl e, s)"
  by simp

lemma step_success:
  "unquote_plus w (object_key rec) \<noteq> config_key w \<Longrightarrow>
   find_best_destination (str_lower w) (re_search w) (unquote_plus w (object_key rec)) rules = Inr
       (Some d) \<Longrightarrow>
   process_file w s (bucket_name rec) (unquote_plus w (object_key rec)) d = (res, s1) \<Longrightarrow>
   success res \<Longrightarrow>
   process_records w rules (rec # recs) s done errs
     = process_records w rules recs s1 (done @ [res]) errs"
  by (simp add: Let_def)

lemma step_failure:
  "unquote_plus w (object_key rec) \<noteq> config_key w \<Longrightarrow>
   find_best_destination (str_lower w) (re_search w) (unquote_plus w (object_key rec)) rules = Inr
       (Some d) \<Longrightarrow>
   process_file w s (bucket_name rec) (unquote_plus w (object_key rec)) d = (res, s1) \<Longrightarrow>
   \<not> success res \<Longrightarrow>
   process_records w rules (rec # recs) s done errs
     = process_records w rules recs s1 done (errs @ [res])"
  by (simp add: Let_def)

lemma process_records_filter:
  "process_records w rules
     (filter (\<lambda>rec. unquote_plus w (object_key rec) \<noteq> config_key w) recs) s done errs
   = process_records w rules recs s done errs"
proof (induction recs arbitrary: s "done" errs)
  case Nil
  show ?case by simp
next
  case (Cons rec recs)
  show ?case
  proof (cases "unquote_plus w (object_key rec) = config_key w")
    case True
    then show ?thesis using Cons by simp
  next
    case False
    then show ?thesis
      using Cons by (simp add: Let_def split: sum.splits option.splits prod.splits)
  qed
qed

lemma lambda_handler_filter:
  "lambda_handler w s (filter (\<lambda>rec. unquote_plus w (object_key rec) \<noteq> config_key w) event)
   = lambda_handler w s event"
  by (simp add: lambda_handler_def process_records_filter)

lemma process_records_all_config:
  "\<forall>rec \<in> set recs. unquote_plus w (object_key rec) = config_key w \<Longrightarrow>
   process_records w rules recs s done errs = (Inr (done, errs), s)"
  by (induction recs) auto

text \<open>
  Claim C10. A record whose decoded key equals the configuration key (the environment
  variable \<open>CONFIG_FILE_KEY\<close>, \<open>config/routing-rules.json\<close> when it is not set) is
  skipped: the loop goes on with the state and the result lists as they were, so the
  handler returns the same summary and ends in the same state, with the same requests
  issued to the store, as on the batch without that record. A batch of such records
  only yields the summary with status 200 and no result, and no request beyond those of
  the configuration loader.
\<close>

theorem config_record_skipped:
  "(unquote_plus w (object_key rec) = config_key w \<longrightarrow>
      process_records w rules (rec # recs) s done errs
        = process_records w rules recs s done errs
      \<and> lambda_handler w s (before @ rec # after) = lambda_handler w s (before @ after))
   \<and> ((\<forall>rec \<in> set event. unquote_plus w (object_key rec) = config_key w) \<longrightarrow>
      lambda_handler w s event =
        (Inr \<lparr>statusCode = 200, processed_files = 0, errors = 0, successful = [],
              failed = []\<rparr>,
         snd (load_routing_config w s)))
   \<and> config_key w = (case environ w ''CONFIG_FILE_KEY'' of
                        None \<Rightarrow> ''config/routing-rules.json'' | Some k \<Rightarrow> k)"
proof -
  have a: "unquote_plus w (object_key rec) = config_key w \<longrightarrow>
      process_records w rules (rec # recs) s done errs
        = process_records w rules recs s done errs
      \<and> lambda_handler w s (before @ rec # after) = lambda_handler w s (before @ after)"
  proof
    assume k: "unquote_plus w (object_key rec) = config_key w"
    have "filter (\<lambda>rec. unquote_plus w (object_key rec) \<noteq> config_key w) (before @ rec # after)
        = filter (\<lambda>rec. unquote_plus w (object_key rec) \<noteq> config_key w) (before @ after)"
      using k by simp
    then have "lambda_handler w s (before @ rec # after) = lambda_handler w s (before @ after)"
      using lambda_handler_filter[of w s "before @ rec # after"]
        lambda_handler_filter[of w s "before @ after"] by simp
    then show "process_records w rules (rec # recs) s done errs
        = process_records w rules recs s done errs
      \<and> lambda_handler w s (before @ rec # after) = lambda_handler w s (before @ after)"
      using step_skip[OF k] by simp
  qed
  have b: "(\<forall>rec \<in> set event. unquote_plus w (object_key rec) = config_key w) \<longrightarrow>
      lambda_handler w s event =
        (Inr \<lparr>statusCode = 200, processed_files = 0, errors = 0, successful = [],
              failed = []\<rparr>,
         snd (load_routing_config w s))"
  proof
    assume h: "\<forall>rec \<in> set event. unquote_plus w (object_key rec) = config_key w"
    obtain rules' s1 where l: "load_routing_config w s = (rules', s1)"
      by (cases "load_routing_config w s")
    show "lambda_handler w s event =
        (Inr \<lparr>statusCode = 200, processed_files = 0, errors = 0, successful = [],
              failed = []\<rparr>,
         snd (load_routing_config w s))"
      by (simp add: lambda_handler_def l process_records_all_config[OF h])
  qed
  have c: "config_key w = (case environ w ''CONFIG_FILE_KEY'' of
                        None \<Rightarrow> ''config/routing-rules.json'' | Some k \<Rightarrow> k)"
    by (simp add: config_key_def get_or_def)
  from a b c show ?thesis by blast
qed

theorem config_record_skipped_witness:
  "lambda_handler example_world initial_state
     [\<lparr>bucket_name = ''src'', object_key = ''config/routing-rules.json''\<rparr>,
      \<lparr>bucket_name = ''src'', object_key = ''Inbox/data.csv''\<rparr>]
   = lambda_handler example_world initial_state
       [\<lparr>bucket_name = ''src'', object_key = ''Inbox/data.csv''\<rparr>]
   \<and> lambda_handler example_world initial_state
       [\<lparr>bucket_name = ''src'', object_key = ''config/routing-rules.json''\<rparr>]
     = (Inr \<lparr>statusCode = 200, processed_files = 0, errors = 0, successful = [],
             failed = []\<rparr>,
        snd (load_routing_config example_world initial_state))"
proof -
  let ?c = "\<lparr>bucket_name = ''src'', object_key = ''config/routing-rules.json''\<rparr>"
  let ?d = "\<lparr>bucket_name = ''src'', object_key = ''Inbox/data.csv''\<rparr>"
  have k: "unquote_plus example_world (object_key ?c) = config_key example_world"
    by (simp add: example_world_def config_key_def get_or_def)
  have 1: "lambda_handler example_world initial_state ([] @ ?c # [?d])
      = lambda_handler example_world initial_state ([] @ [?d])"
    using config_record_skipped[where w = example_world and rec = ?c and before = "[]"
        and after = "[?d]" and s = initial_state, THEN conjunct1] k
    by blast
  have 2: "lambda_handler example_world initial_state [?c]
     = (Inr \<lparr>statusCode = 200, processed_files = 0, errors = 0, successful = [],
             failed = []\<rparr>,
        snd (load_routing_config example_world initial_state))"
    using config_record_skipped[where w = example_world and event = "[?c]"
        and s = initial_state, THEN conjunct2, THEN conjunct1] k
    by simp
  from 1 2 show ?thesis by simp
qed

section \<open>Object processor and handler: failures\<close>

lemma process_file_shape:
  "success (fst (process_file w s b k r))
   \<or> (\<exists>e. fst (process_file w s b k r) =
          Failure (''s3://'' @ b @ ''/'' @ k) (''Failed to process '' @ k @ '': '' @ str_exn e))"
proof (cases "process_file_body w s b k r")
  case (Pair x s')
  show ?thesis
  proof (cases x)
    case (Inl e)
    then show ?thesis using Pair by (auto simp: process_file_def)
  next
    case (Inr res)
    have "success res"
      using Pair Inr
      by (auto simp: process_file_body_def Let_def split: prod.splits sum.splits if_splits)
    then show ?thesis using Pair Inr by (simp add: process_file_def)
  qed
qed

lemma process_file_no_prefix:
  assumes "destination_prefix r = None"
  shows "fst (process_file w s b k r) =
           Failure (''s3://'' @ b @ ''/'' @ k)
             (''Failed to process '' @ k @ '': '' @ str_exn (KeyError ''destination_prefix''))"
  using assms
  by (simp add: process_file_def process_file_body_def Let_def subscript_def split: prod.splits)

lemma process_file_copy_fails:
  assumes "destination_prefix r = Some p" "name r = Some n" "destination_bucket r = Some db"
    and "\<forall>c. copy_object w (s3_calls s) c = Inl e"
  shows "fst (process_file w s b k r) =
           Failure (''s3://'' @ b @ ''/'' @ k) (''Failed to process '' @ k @ '': '' @ str_exn e)"
proof -
  obtain dfn s1 where d: "destination_filename w s (last (split (CHR ''/'') k)) r = (dfn, s1)"
    by (cases "destination_filename w s (last (split (CHR ''/'') k)) r")
  have c: "s3_calls s1 = s3_calls s"
    using destination_filename_calls[of w s "last (split (CHR ''/'') k)" r] d by simp
  show ?thesis
    using assms c
    by (simp add: process_file_def process_file_body_def d Let_def subscript_def)
qed

lemma process_file_delete_fails:
  assumes "destination_prefix r = Some p" "name r = Some n" "destination_bucket r = Some db"
    and "\<forall>c. copy_object w (s3_calls s) c = Inr ()"
    and "delete_source r = Some True"
    and "\<forall>calls. delete_object w calls b k = Inl e"
  shows "fst (process_file w s b k r) =
           Failure (''s3://'' @ b @ ''/'' @ k) (''Failed to process '' @ k @ '': '' @ str_exn e)"
proof -
  obtain dfn s1 where d: "destination_filename w s (last (split (CHR ''/'') k)) r = (dfn, s1)"
    by (cases "destination_filename w s (last (split (CHR ''/'') k)) r")
  have c: "s3_calls s1 = s3_calls s"
    using destination_filename_calls[of w s "last (split (CHR ''/'') k)" r] d by simp
  show ?thesis
    using assms c
    by (simp add: process_file_def process_file_body_def d Let_def subscript_def get_or_def)
qed

lemma process_records_prefix:
  assumes "\<forall>q \<in> set pre. unquote_plus w (object_key q) \<noteq> config_key w \<longrightarrow>
             (\<exists>d. find_best_destination (str_lower w) (re_search w) (unquote_plus w (object_key
                 q)) rules
                    = Inr d)"
  shows "\<exists>s' dn er.
           (\<forall>rest. process_records w rules (pre @ rest) s done errs
                     = process_records w rules rest s' (done @ dn) (errs @ er))
           \<and> (\<forall>x \<in> set dn. success x) \<and> (\<forall>x \<in> set er. \<not> success x)
           \<and> length dn + length er =
               length (filter (\<lambda>q. unquote_plus w (object_key q) \<noteq> config_key w
                         \<and> (\<exists>d. find_best_destination (str_lower w) (re_search w)
                                   (unquote_plus w (object_key q)) rules = Inr (Some d))) pre)"
  using assms
proof (induction pre arbitrary: s "done" errs)
  case Nil
  have "(\<forall>rest. process_records w rules ([] @ rest) s done errs
                     = process_records w rules rest s (done @ []) (errs @ []))
        \<and> (\<forall>x \<in> set ([]::result list). success x)
        \<and> (\<forall>x \<in> set ([]::result list). \<not> success x)
        \<and> length ([]::result list) + length ([]::result list) =
               length (filter (\<lambda>q. unquote_plus w (object_key q) \<noteq> config_key w
                         \<and> (\<exists>d. find_best_destination (str_lower w) (re_search w)
                                   (unquote_plus w (object_key q)) rules = Inr (Some d))) [])"
    by simp
  then show ?case by blast
next
  case (Cons rec pre)
  let ?key = "unquote_plus w (object_key rec)"
  let ?routed = "\<lambda>q. unquote_plus w (object_key q) \<noteq> config_key w
                   \<and> (\<exists>d. find_best_destination (str_lower w) (re_search w)
                             (unquote_plus w (object_key q)) rules = Inr (Some d))"
  have pre_ok: "\<forall>q \<in> set pre. unquote_plus w (object_key q) \<noteq> config_key w \<longrightarrow>
             (\<exists>d. find_best_destination (str_lower w) (re_search w) (unquote_plus w (object_key
                 q)) rules
                    = Inr d)"
    using Cons.prems by simp
  note IH = Cons.IH[OF pre_ok]
  show ?case
  proof (cases "?key = config_key w")
    case True
    from IH[of s "done" errs] obtain s' dn er where
      r: "\<forall>rest. process_records w rules (pre @ rest) s done errs
                     = process_records w rules rest s' (done @ dn) (errs @ er)"
      and p: "\<forall>x \<in> set dn. success x" "\<forall>x \<in> set er. \<not> success x"
        "length dn + length er = length (filter ?routed pre)"
      by blast
    have "\<forall>rest. process_records w rules ((rec # pre) @ rest) s done errs
                     = process_records w rules rest s' (done @ dn) (errs @ er)"
      using r step_skip[OF True] by simp
    moreover have "length dn + length er = length (filter ?routed (rec # pre))"
      using p(3) True by simp
    ultimately show ?thesis using p(1,2) by blast
  next
    case False
    then obtain d where fd: "find_best_destination (str_lower w) (re_search w) ?key rules = Inr d"
      using Cons.prems by auto
    show ?thesis
    proof (cases d)
      case None
      from IH[of s "done" errs] obtain s' dn er where
        r: "\<forall>rest. process_records w rules (pre @ rest) s done errs
                       = process_records w rules rest s' (done @ dn) (errs @ er)"
        and p: "\<forall>x \<in> set dn. success x" "\<forall>x \<in> set er. \<not> success x"
          "length dn + length er = length (filter ?routed pre)"
        by blast
      have "\<forall>rest. process_records w rules ((rec # pre) @ rest) s done errs
                       = process_records w rules rest s' (done @ dn) (errs @ er)"
        using r step_none[OF False] fd None by simp
      moreover have "length dn + length er = length (filter ?routed (rec # pre))"
        using p(3) fd None by simp
      ultimately show ?thesis using p(1,2) by blast
    next
      case (Some rule)
      obtain res s1 where pf: "process_file w s (bucket_name rec) ?key rule = (res, s1)"
        by (cases "process_file w s (bucket_name rec) ?key rule")
      have routed: "length (filter ?routed (rec # pre)) = Suc (length (filter ?routed pre))"
        using False fd Some by simp
      show ?thesis
      proof (cases "success res")
        case True
        from IH[of s1 "done @ [res]" errs] obtain s' dn er where
          r: "\<forall>rest. process_records w rules (pre @ rest) s1 (done @ [res]) errs
                         = process_records w rules rest s' ((done @ [res]) @ dn) (errs @ er)"
          and p: "\<forall>x \<in> set dn. success x" "\<forall>x \<in> set er. \<not> success x"
            "length dn + length er = length (filter ?routed pre)"
          by blast
        have "\<forall>rest. process_records w rules ((rec # pre) @ rest) s done errs
                         = process_records w rules rest s' (done @ (res # dn)) (errs @ er)"
          using r step_success[OF False _ pf True] fd Some by simp
        moreover have "\<forall>x \<in> set (res # dn). success x"
          using p(1) True by simp
        moreover have "length (res # dn) + length er = length (filter ?routed (rec # pre))"
          using p(3) routed by simp
        ultimately show ?thesis using p(2) by blast
      next
        case unsuccessful: False
        then have fl: "\<not> success res" by simp
        from IH[of s1 "done" "errs @ [res]"] obtain s' dn er where
          r: "\<forall>rest. process_records w rules (pre @ rest) s1 done (errs @ [res])
                         = process_records w rules rest s' (done @ dn) ((errs @ [res]) @ er)"
          and p: "\<forall>x \<in> set dn. success x" "\<forall>x \<in> set er. \<not> success x"
            "length dn + length er = length (filter ?routed pre)"
          by blast
        have "\<forall>rest. process_records w rules ((rec # pre) @ rest) s done errs
                         = process_records w rules rest s' (done @ dn) (errs @ (res # er))"
          using r step_failure[OF False _ pf fl] fd Some by simp
        moreover have "\<forall>x \<in> set (res # er). \<not> success x"
          using p(2) fl by simp
        moreover have "length dn + length (res # er) = length (filter ?routed (rec # pre))"
          using p(3) routed by simp
        ultimately show ?thesis using p(1) by blast
      qed
    qed
  qed
qed

lemma lambda_handler_returns:
  assumes "\<forall>q \<in> set event. unquote_plus w (object_key q) \<noteq> config_key w \<longrightarrow>
             (\<exists>d. find_best_destination (str_lower w) (re_search w) (unquote_plus w (object_key q))
                    (fst (load_routing_config w s)) = Inr d)"
  shows "\<exists>resp s'. lambda_handler w s event = (Inr resp, s')
           \<and> statusCode resp = (if failed resp = [] then 200 else 207)
           \<and> processed_files resp = length (successful resp)
           \<and> errors resp = length (failed resp)
           \<and> (\<forall>x \<in> set (successful resp). success x)
           \<and> (\<forall>x \<in> set (failed resp). \<not> success x)
           \<and> length (successful resp) + length (failed resp) =
               length (filter (\<lambda>q. unquote_plus w (object_key q) \<noteq> config_key w
                         \<and> (\<exists>d. find_best_destination (str_lower w) (re_search w)
                                   (unquote_plus w (object_key q))
                                   (fst (load_routing_config w s)) = Inr (Some d))) event)"
proof -
  obtain rules s1 where l: "load_routing_config w s = (rules, s1)"
    by (cases "load_routing_config w s")
  have ok: "\<forall>q \<in> set event. unquote_plus w (object_key q) \<noteq> config_key w \<longrightarrow>
             (\<exists>d. find_best_destination (str_lower w) (re_search w) (unquote_plus w (object_key
                 q)) rules
                    = Inr d)"
    using assms l by simp
  from process_records_prefix[OF ok, of s1 "[]" "[]"] obtain s' dn er where
    r: "\<forall>rest. process_records w rules (event @ rest) s1 [] []
                   = process_records w rules rest s' ([] @ dn) ([] @ er)"
    and p: "\<forall>x \<in> set dn. success x" "\<forall>x \<in> set er. \<not> success x"
      "length dn + length er =
         length (filter (\<lambda>q. unquote_plus w (object_key q) \<noteq> config_key w
                   \<and> (\<exists>d. find_best_destination (str_lower w) (re_search w)
                             (unquote_plus w (object_key q)) rules = Inr (Some d))) event)"
    by blast
  from r have "process_records w rules (event @ []) s1 [] []
      = process_records w rules [] s' ([] @ dn) ([] @ er)"
    by blast
  then have pr: "process_records w rules event s1 [] [] = (Inr (dn, er), s')"
    by simp
  let ?resp = "\<lparr>statusCode = (if length er = 0 then 200 else 207),
                 processed_files = length dn, errors = length er,
                 successful = dn, failed = er\<rparr>"
  have "lambda_handler w s event = (Inr ?resp, s')"
    by (simp add: lambda_handler_def l pr)
  moreover have "statusCode ?resp = (if failed ?resp = [] then 200 else 207)"
    by simp
  moreover have "processed_files ?resp = length (successful ?resp)"
    "errors ?resp = length (failed ?resp)"
    by simp_all
  moreover have "\<forall>x \<in> set (successful ?resp). success x"
    "\<forall>x \<in> set (failed ?resp). \<not> success x"
    using p(1,2) by simp_all
  moreover have "length (successful ?resp) + length (failed ?resp) =
               length (filter (\<lambda>q. unquote_plus w (object_key q) \<noteq> config_key w
                         \<and> (\<exists>d. find_best_destination (str_lower w) (re_search w)
                                   (unquote_plus w (object_key q))
                                   (fst (load_routing_config w s)) = Inr (Some d))) event)"
    using p(3) l by simp
  ultimately show ?thesis by blast
qed

lemma lambda_handler_raises:
  assumes "event = before @ rec # after"
    and "\<forall>q \<in> set before. unquote_plus w (object_key q) \<noteq> config_key w \<longrightarrow>
           (\<exists>d. find_best_destination (str_lower w) (re_search w) (unquote_plus w (object_key q))
                  (fst (load_routing_config w s)) = Inr d)"
    and "unquote_plus w (object_key rec) \<noteq> config_key w"
    and "find_best_destination (str_lower w) (re_search w) (unquote_plus w (object_key rec))
           (fst (load_routing_config w s)) = Inl e"
  shows "fst (lambda_handler w s event) = Inl e"
proof -
  obtain rules s1 where l: "load_routing_config w s = (rules, s1)"
    by (cases "load_routing_config w s")
  have ok: "\<forall>q \<in> set before. unquote_plus w (object_key q) \<noteq> config_key w \<longrightarrow>
             (\<exists>d. find_best_destination (str_lower w) (re_search w) (unquote_plus w (object_key
                 q)) rules
                    = Inr d)"
    using assms(2) l by simp
  have raise: "find_best_destination (str_lower w) (re_search w) (unquote_plus w (object_key rec))
      rules
      = Inl e"
    using assms(4) l by simp
  from process_records_prefix[OF ok, of s1 "[]" "[]"] obtain s' dn er where
    r: "\<forall>rest. process_records w rules (before @ rest) s1 [] []
                   = process_records w rules rest s' ([] @ dn) ([] @ er)"
    by blast
  from r have "process_records w rules (before @ rec # after) s1 [] []
      = process_records w rules (rec # after) s' ([] @ dn) ([] @ er)"
    by blast
  also have "\<dots> = (Inl e, s')"
    using step_raise[OF assms(3) raise] by simp
  finally show ?thesis
    using assms(1) by (simp add: lambda_handler_def l)
qed

lemma process_records_append:
  "process_records w rules (pre @ rest) s done errs =
     (case process_records w rules pre s done errs of
        (Inl e, s') \<Rightarrow> (Inl e, s')
      | (Inr (dn, er), s') \<Rightarrow> process_records w rules rest s' dn er)"
proof (induction pre arbitrary: s "done" errs)
  case Nil
  show ?case by simp
next
  case (Cons rec pre)
  show ?case
  proof (cases "unquote_plus w (object_key rec) = config_key w")
    case True
    then show ?thesis using Cons by simp
  next
    case False
    then show ?thesis
      using Cons by (simp add: Let_def split: sum.splits option.splits prod.splits)
  qed
qed

lemma lambda_handler_nil:
  "lambda_handler w s [] =
     (Inr \<lparr>statusCode = 200, processed_files = 0, errors = 0, successful = [], failed = []\<rparr>,
      snd (load_routing_config w s))"
  by (simp add: lambda_handler_def split: prod.splits)

lemma lambda_handler_raised:
  assumes "fst (lambda_handler w s pre) = Inl e"
  shows "lambda_handler w s (pre @ rest) = lambda_handler w s pre"
proof -
  obtain rules s1 where l: "load_routing_config w s = (rules, s1)"
    by (cases "load_routing_config w s")
  obtain x s' where p: "process_records w rules pre s1 [] [] = (x, s')"
    by (cases "process_records w rules pre s1 [] []")
  have "x = Inl e"
    using assms by (cases x) (auto simp: lambda_handler_def l p)
  then show ?thesis
    by (simp add: lambda_handler_def l p process_records_append)
qed

lemma lambda_handler_snoc:
  assumes "fst (lambda_handler w s pre) = Inr resp"
  shows "lambda_handler w s (pre @ [rec]) =
     (if unquote_plus w (object_key rec) = config_key w
      then (Inr resp, snd (lambda_handler w s pre))
      else case find_best_destination (str_lower w) (re_search w)
                  (unquote_plus w (object_key rec)) (fst (load_routing_config w s)) of
             Inl e \<Rightarrow> (Inl e, snd (lambda_handler w s pre))
           | Inr None \<Rightarrow> (Inr resp, snd (lambda_handler w s pre))
           | Inr (Some d) \<Rightarrow>
               (case process_file w (snd (lambda_handler w s pre)) (bucket_name rec)
                       (unquote_plus w (object_key rec)) d of
                  (res, s'') \<Rightarrow>
                    (Inr (if success res
                          then resp\<lparr>processed_files := Suc (processed_files resp),
                                    successful := successful resp @ [res]\<rparr>
                          else resp\<lparr>statusCode := 207, errors := Suc (errors resp),
                                    failed := failed resp @ [res]\<rparr>), s'')))"
proof -
  obtain rules s1 where l: "load_routing_config w s = (rules, s1)"
    by (cases "load_routing_config w s")
  obtain x s' where p: "process_records w rules pre s1 [] [] = (x, s')"
    by (cases "process_records w rules pre s1 [] []")
  obtain dn er where x: "x = Inr (dn, er)"
    using assms by (cases x) (auto simp: lambda_handler_def l p)
  have r: "resp = \<lparr>statusCode = (if length er = 0 then 200 else 207),
                   processed_files = length dn, errors = length er,
                   successful = dn, failed = er\<rparr>"
    using assms by (simp add: lambda_handler_def l p x)
  have s': "snd (lambda_handler w s pre) = s'"
    by (simp add: lambda_handler_def l p x)
  have a: "process_records w rules (pre @ [rec]) s1 [] [] = process_records w rules [rec] s' dn er"
    by (simp add: process_records_append p x)
  show ?thesis
    unfolding s'
    by (simp add: lambda_handler_def l a r Let_def split: sum.splits option.splits prod.splits)
qed

lemma snoc_decomp:
  "(\<exists>pre nxt rest. xs @ [x] = pre @ nxt # rest \<and> Q pre nxt)
     = ((\<exists>pre nxt rest. xs = pre @ nxt # rest \<and> Q pre nxt) \<or> Q xs x)"
proof
  assume "\<exists>pre nxt rest. xs @ [x] = pre @ nxt # rest \<and> Q pre nxt"
  then obtain pre nxt rest where d: "xs @ [x] = pre @ nxt # rest" "Q pre nxt" by blast
  show "(\<exists>pre nxt rest. xs = pre @ nxt # rest \<and> Q pre nxt) \<or> Q xs x"
  proof (cases rest rule: rev_cases)
    case Nil
    then have "xs = pre" "x = nxt" using d(1) by simp_all
    then show ?thesis using d(2) by simp
  next
    case (snoc rest' y)
    then have "xs @ [x] = (pre @ nxt # rest') @ [y]" using d(1) by simp
    then have "xs = pre @ nxt # rest'" by (simp only: append1_eq_conv)
    then show ?thesis using d(2) by blast
  qed
next
  assume "(\<exists>pre nxt rest. xs = pre @ nxt # rest \<and> Q pre nxt) \<or> Q xs x"
  then show "\<exists>pre nxt rest. xs @ [x] = pre @ nxt # rest \<and> Q pre nxt"
  proof
    assume "\<exists>pre nxt rest. xs = pre @ nxt # rest \<and> Q pre nxt"
    then obtain pre nxt rest where "xs = pre @ nxt # rest" "Q pre nxt" by blast
    then have "xs @ [x] = pre @ nxt # (rest @ [x])" "Q pre nxt" by simp_all
    then show ?thesis by blast
  next
    assume "Q xs x"
    then have "xs @ [x] = xs @ x # []" "Q xs x" by simp_all
    then show ?thesis by blast
  qed
qed

lemma lambda_handler_status:
  assumes "\<forall>q \<in> set event. unquote_plus w (object_key q) \<noteq> config_key w \<longrightarrow>
             (\<exists>d. find_best_destination (str_lower w) (re_search w)
                    (unquote_plus w (object_key q)) (fst (load_routing_config w s)) = Inr d)"
  shows "\<exists>resp. fst (lambda_handler w s event) = Inr resp
           \<and> (statusCode resp = 200 \<or> statusCode resp = 207)
           \<and> ((statusCode resp = 207) =
                (\<exists>pre nxt rest. event = pre @ nxt # rest
                   \<and> unquote_plus w (object_key nxt) \<noteq> config_key w
                   \<and> (\<exists>dest. find_best_destination (str_lower w) (re_search w)
                         (unquote_plus w (object_key nxt)) (fst (load_routing_config w s))
                           = Inr (Some dest)
                       \<and> \<not> success (fst (process_file w (snd (lambda_handler w s pre))
                              (bucket_name nxt) (unquote_plus w (object_key nxt)) dest)))))"
  using assms
proof (induction event rule: rev_induct)
  case Nil
  show ?case by (simp add: lambda_handler_nil)
next
  case (snoc x xs)
  define Q where "Q = (\<lambda>(pre::s3_record list) (nxt::s3_record). unquote_plus w (object_key nxt) \<noteq>
      config_key w
                   \<and> (\<exists>dest. find_best_destination (str_lower w) (re_search w)
                         (unquote_plus w (object_key nxt)) (fst (load_routing_config w s))
                           = Inr (Some dest)
                       \<and> \<not> success (fst (process_file w (snd (lambda_handler w s pre))
                              (bucket_name nxt) (unquote_plus w (object_key nxt)) dest))))"
  have ok: "\<forall>q \<in> set xs. unquote_plus w (object_key q) \<noteq> config_key w \<longrightarrow>
             (\<exists>d. find_best_destination (str_lower w) (re_search w)
                    (unquote_plus w (object_key q)) (fst (load_routing_config w s)) = Inr d)"
    using snoc.prems by simp
  from snoc.IH[OF ok] obtain resp0 where
    r0: "fst (lambda_handler w s xs) = Inr resp0"
    and st0: "statusCode resp0 = 200 \<or> statusCode resp0 = 207"
    and iff0: "(statusCode resp0 = 207) = (\<exists>pre nxt rest. xs = pre @ nxt # rest \<and> Q pre nxt)"
    unfolding Q_def by blast
  note step = lambda_handler_snoc[OF r0, of x]
  have dec: "(\<exists>pre nxt rest. xs @ [x] = pre @ nxt # rest \<and> Q pre nxt)
      = ((statusCode resp0 = 207) \<or> Q xs x)"
    unfolding iff0 by (rule snoc_decomp)
  have goal: "\<exists>resp. fst (lambda_handler w s (xs @ [x])) = Inr resp
           \<and> (statusCode resp = 200 \<or> statusCode resp = 207)
           \<and> ((statusCode resp = 207) =
                (\<exists>pre nxt rest. xs @ [x] = pre @ nxt # rest \<and> Q pre nxt))"
  proof (cases "unquote_plus w (object_key x) = config_key w")
    case True
    then have "fst (lambda_handler w s (xs @ [x])) = Inr resp0"
      unfolding step by simp
    moreover have "\<not> Q xs x" using True by (simp add: Q_def)
    ultimately show ?thesis using st0 dec by blast
  next
    case False
    then obtain d where fd: "find_best_destination (str_lower w) (re_search w)
        (unquote_plus w (object_key x)) (fst (load_routing_config w s)) = Inr d"
      using snoc.prems by auto
    show ?thesis
    proof (cases d)
      case None
      then have "fst (lambda_handler w s (xs @ [x])) = Inr resp0"
        unfolding step using False fd by simp
      moreover have "\<not> Q xs x" using fd None by (simp add: Q_def)
      ultimately show ?thesis using st0 dec by blast
    next
      case (Some dest)
      let ?res = "fst (process_file w (snd (lambda_handler w s xs)) (bucket_name x)
                         (unquote_plus w (object_key x)) dest)"
      show ?thesis
      proof (cases "success ?res")
        case True
        have "fst (lambda_handler w s (xs @ [x])) =
            Inr (resp0\<lparr>processed_files := Suc (processed_files resp0),
                   successful := successful resp0 @ [?res]\<rparr>)"
          unfolding step using False fd Some True by (simp add: case_prod_beta)
        moreover have "statusCode (resp0\<lparr>processed_files := Suc (processed_files resp0),
                   successful := successful resp0 @ [?res]\<rparr>) = statusCode resp0"
          by simp
        moreover have "\<not> Q xs x" using fd Some True by (simp add: Q_def)
        ultimately show ?thesis using st0 dec by metis
      next
        case unsuccessful: False
        have "fst (lambda_handler w s (xs @ [x])) =
            Inr (resp0\<lparr>statusCode := 207, errors := Suc (errors resp0),
                   failed := failed resp0 @ [?res]\<rparr>)"
          unfolding step using False fd Some unsuccessful by (simp add: case_prod_beta)
        moreover have "statusCode (resp0\<lparr>statusCode := 207, errors := Suc (errors resp0),
                   failed := failed resp0 @ [?res]\<rparr>) = 207"
          by simp
        moreover have "Q xs x" using False fd Some unsuccessful by (simp add: Q_def)
        ultimately show ?thesis using dec by metis
      qed
    qed
  qed
  then show ?case unfolding Q_def .
qed

text \<open>
  Claim C9, as amended. \<open>process_file\<close> always returns a result: a success, or a failure
  that carries the source and the message \<open>Failed to process\<close>, the key and the text of
  the exception. So it does for a rule without destination prefix, for a copy that the
  store refuses, and for a deletion that the store refuses after the copy succeeded.
  When rule resolution raises on no record of the batch, the handler returns a summary:
  its status is 207 exactly when the list of failures is not empty and 200 otherwise,
  the two counts are the lengths of the two lists, the list of successes holds
  successes only and the list of failures failures only, and together they hold one
  result for every record that is not the configuration document and for which a rule
  was found, whatever happened to the records before it. When rule resolution raises on
  a record, having raised on none before it, the handler raises that exception and
  returns no summary. The results are those of \<open>process_file\<close>, in the order of the
  records: the summary of the empty batch has status 200 and no result; when a batch has
  a summary and a rule is found for one more record, the summary of the longer batch is
  that summary with the result that \<open>process_file\<close> returns for the record, called in the
  state that the batch has left, appended to the successes and counted there when it is
  a success, and appended to the failures and counted there, with status 207, when it is
  a failure, and the handler ends in the state that \<open>process_file\<close> has left; when the
  record is the configuration document or no rule is found for it, summary and state are
  those of the batch; and when the handler raises on a batch, it does the same on every
  longer batch. So, when rule resolution raises on no record of the batch, the status is
  207 exactly when the batch has a record, not the configuration document, for which a
  rule is found and \<open>process_file\<close>, called in the state that the records before it
  have left, returns a failure; and it is 200 otherwise.
\<close>

theorem batch_result_spec:
  "(success (fst (process_file w s b k r))
      \<or> (\<exists>e. fst (process_file w s b k r) =
            Failure (''s3://'' @ b @ ''/'' @ k)
              (''Failed to process '' @ k @ '': '' @ str_exn e)))
   \<and> (destination_prefix r = None \<longrightarrow>
        fst (process_file w s b k r) =
          Failure (''s3://'' @ b @ ''/'' @ k)
            (''Failed to process '' @ k @ '': '' @ str_exn (KeyError ''destination_prefix'')))
   \<and> (destination_prefix r = Some p \<and> name r = Some n \<and> destination_bucket r = Some db
        \<and> (\<forall>c. copy_object w (s3_calls s) c = Inl e) \<longrightarrow>
        fst (process_file w s b k r) =
          Failure (''s3://'' @ b @ ''/'' @ k) (''Failed to process '' @ k @ '': '' @ str_exn e))
   \<and> (destination_prefix r = Some p \<and> name r = Some n \<and> destination_bucket r = Some db
        \<and> (\<forall>c. copy_object w (s3_calls s) c = Inr ()) \<and> delete_source r = Some True
        \<and> (\<forall>calls. delete_object w calls b k = Inl e) \<longrightarrow>
        fst (process_file w s b k r) =
          Failure (''s3://'' @ b @ ''/'' @ k) (''Failed to process '' @ k @ '': '' @ str_exn e))
   \<and> ((\<forall>q \<in> set event. unquote_plus w (object_key q) \<noteq> config_key w \<longrightarrow>
          (\<exists>d. find_best_destination (str_lower w) (re_search w) (unquote_plus w (object_key q))
                 (fst (load_routing_config w s)) = Inr d)) \<longrightarrow>
        (\<exists>resp s'. lambda_handler w s event = (Inr resp, s')
           \<and> statusCode resp = (if failed resp = [] then 200 else 207)
           \<and> processed_files resp = length (successful resp)
           \<and> errors resp = length (failed resp)
           \<and> (\<forall>x \<in> set (successful resp). success x)
           \<and> (\<forall>x \<in> set (failed resp). \<not> success x)
           \<and> length (successful resp) + length (failed resp) =
               length (filter (\<lambda>q. unquote_plus w (object_key q) \<noteq> config_key w
                         \<and> (\<exists>d. find_best_destination (str_lower w) (re_search w)
                                   (unquote_plus w (object_key q))
                                   (fst (load_routing_config w s)) = Inr (Some d))) event)))
   \<and> (event = before @ rec # after
        \<and> (\<forall>q \<in> set before. unquote_plus w (object_key q) \<noteq> config_key w \<longrightarrow>
             (\<exists>d. find_best_destination (str_lower w) (re_search w)
                    (unquote_plus w (object_key q))
                    (fst (load_routing_config w s)) = Inr d))
        \<and> unquote_plus w (object_key rec) \<noteq> config_key w
        \<and> find_best_destination (str_lower w) (re_search w) (unquote_plus w (object_key rec))
             (fst (load_routing_config w s)) = Inl e' \<longrightarrow>
        fst (lambda_handler w s event) = Inl e')
   \<and> lambda_handler w s [] =
        (Inr \<lparr>statusCode = 200, processed_files = 0, errors = 0, successful = [],
              failed = []\<rparr>,
         snd (load_routing_config w s))
   \<and> (fst (lambda_handler w s pre) = Inr summary
        \<and> unquote_plus w (object_key nxt) \<noteq> config_key w
        \<and> find_best_destination (str_lower w) (re_search w) (unquote_plus w (object_key nxt))
             (fst (load_routing_config w s)) = Inr (Some dest)
        \<and> success (fst (process_file w (snd (lambda_handler w s pre)) (bucket_name nxt)
                           (unquote_plus w (object_key nxt)) dest)) \<longrightarrow>
        lambda_handler w s (pre @ [nxt]) =
          (Inr (summary\<lparr>processed_files := Suc (processed_files summary),
                  successful := successful summary @
                    [fst (process_file w (snd (lambda_handler w s pre)) (bucket_name nxt)
                            (unquote_plus w (object_key nxt)) dest)]\<rparr>),
           snd (process_file w (snd (lambda_handler w s pre)) (bucket_name nxt)
                  (unquote_plus w (object_key nxt)) dest)))
   \<and> (fst (lambda_handler w s pre) = Inr summary
        \<and> unquote_plus w (object_key nxt) \<noteq> config_key w
        \<and> find_best_destination (str_lower w) (re_search w) (unquote_plus w (object_key nxt))
             (fst (load_routing_config w s)) = Inr (Some dest)
        \<and> \<not> success (fst (process_file w (snd (lambda_handler w s pre)) (bucket_name nxt)
                             (unquote_plus w (object_key nxt)) dest)) \<longrightarrow>
        lambda_handler w s (pre @ [nxt]) =
          (Inr (summary\<lparr>statusCode := 207, errors := Suc (errors summary),
                  failed := failed summary @
                    [fst (process_file w (snd (lambda_handler w s pre)) (bucket_name nxt)
                            (unquote_plus w (object_key nxt)) dest)]\<rparr>),
           snd (process_file w (snd (lambda_handler w s pre)) (bucket_name nxt)
                  (unquote_plus w (object_key nxt)) dest)))
   \<and> (fst (lambda_handler w s pre) = Inr summary
        \<and> (unquote_plus w (object_key nxt) = config_key w
             \<or> find_best_destination (str_lower w) (re_search w)
                  (unquote_plus w (object_key nxt)) (fst (load_routing_config w s)) = Inr None)
        \<longrightarrow> lambda_handler w s (pre @ [nxt]) = lambda_handler w s pre)
   \<and> (fst (lambda_handler w s pre) = Inl e' \<longrightarrow>
        lambda_handler w s (pre @ rest) = lambda_handler w s pre)
   \<and> ((\<forall>q \<in> set event. unquote_plus w (object_key q) \<noteq> config_key w \<longrightarrow>
          (\<exists>d. find_best_destination (str_lower w) (re_search w)
                 (unquote_plus w (object_key q)) (fst (load_routing_config w s)) = Inr d)) \<longrightarrow>
        (\<exists>resp. fst (lambda_handler w s event) = Inr resp
           \<and> (statusCode resp = 200 \<or> statusCode resp = 207)
           \<and> ((statusCode resp = 207) =
                (\<exists>pre nxt rest. event = pre @ nxt # rest
                   \<and> unquote_plus w (object_key nxt) \<noteq> config_key w
                   \<and> (\<exists>dest. find_best_destination (str_lower w) (re_search w)
                         (unquote_plus w (object_key nxt)) (fst (load_routing_config w s))
                           = Inr (Some dest)
                       \<and> \<not> success (fst (process_file w (snd (lambda_handler w s pre))
                              (bucket_name nxt) (unquote_plus w (object_key nxt)) dest)))))))"
proof -
  let ?key = "unquote_plus w (object_key nxt)"
  let ?found = "find_best_destination (str_lower w) (re_search w) ?key
                  (fst (load_routing_config w s))"
  let ?pf = "process_file w (snd (lambda_handler w s pre)) (bucket_name nxt) ?key dest"
  have g: "lambda_handler w s [] =
        (Inr \<lparr>statusCode = 200, processed_files = 0, errors = 0, successful = [],
              failed = []\<rparr>,
         snd (load_routing_config w s))"
    by (rule lambda_handler_nil)
  have h: "fst (lambda_handler w s pre) = Inr summary \<and> ?key \<noteq> config_key w
        \<and> ?found = Inr (Some dest) \<and> success (fst ?pf) \<longrightarrow>
        lambda_handler w s (pre @ [nxt]) =
          (Inr (summary\<lparr>processed_files := Suc (processed_files summary),
                  successful := successful summary @ [fst ?pf]\<rparr>), snd ?pf)"
  proof (intro impI, elim conjE)
    assume a: "fst (lambda_handler w s pre) = Inr summary" "?key \<noteq> config_key w"
      "?found = Inr (Some dest)" "success (fst ?pf)"
    show "lambda_handler w s (pre @ [nxt]) =
          (Inr (summary\<lparr>processed_files := Suc (processed_files summary),
                  successful := successful summary @ [fst ?pf]\<rparr>), snd ?pf)"
      unfolding lambda_handler_snoc[OF a(1)] using a(2,3,4)
      by (simp add: case_prod_beta)
  qed
  have i: "fst (lambda_handler w s pre) = Inr summary \<and> ?key \<noteq> config_key w
        \<and> ?found = Inr (Some dest) \<and> \<not> success (fst ?pf) \<longrightarrow>
        lambda_handler w s (pre @ [nxt]) =
          (Inr (summary\<lparr>statusCode := 207, errors := Suc (errors summary),
                  failed := failed summary @ [fst ?pf]\<rparr>), snd ?pf)"
  proof (intro impI, elim conjE)
    assume a: "fst (lambda_handler w s pre) = Inr summary" "?key \<noteq> config_key w"
      "?found = Inr (Some dest)" "\<not> success (fst ?pf)"
    show "lambda_handler w s (pre @ [nxt]) =
          (Inr (summary\<lparr>statusCode := 207, errors := Suc (errors summary),
                  failed := failed summary @ [fst ?pf]\<rparr>), snd ?pf)"
      unfolding lambda_handler_snoc[OF a(1)] using a(2,3,4)
      by (simp add: case_prod_beta)
  qed
  have j: "fst (lambda_handler w s pre) = Inr summary
        \<and> (?key = config_key w \<or> ?found = Inr None)
        \<longrightarrow> lambda_handler w s (pre @ [nxt]) = lambda_handler w s pre"
  proof (intro impI, elim conjE)
    assume a: "fst (lambda_handler w s pre) = Inr summary"
      "?key = config_key w \<or> ?found = Inr None"
    have "lambda_handler w s pre = (Inr summary, snd (lambda_handler w s pre))"
      using a(1) by (cases "lambda_handler w s pre") simp
    then show "lambda_handler w s (pre @ [nxt]) = lambda_handler w s pre"
      unfolding lambda_handler_snoc[OF a(1)] using a(2) by (auto simp: case_prod_beta)
  qed
  have k: "fst (lambda_handler w s pre) = Inl e' \<longrightarrow>
        lambda_handler w s (pre @ rest) = lambda_handler w s pre"
    using lambda_handler_raised[of w s pre e' rest] by blast
  have a: "success (fst (process_file w s b k r))
      \<or> (\<exists>e. fst (process_file w s b k r) =
            Failure (''s3://'' @ b @ ''/'' @ k)
              (''Failed to process '' @ k @ '': '' @ str_exn e))"
    by (rule process_file_shape)
  have b: "destination_prefix r = None \<longrightarrow>
        fst (process_file w s b k r) =
          Failure (''s3://'' @ b @ ''/'' @ k)
            (''Failed to process '' @ k @ '': '' @ str_exn (KeyError ''destination_prefix''))"
    using process_file_no_prefix[of r w s b k] by blast
  have c: "destination_prefix r = Some p \<and> name r = Some n \<and> destination_bucket r = Some db
        \<and> (\<forall>c. copy_object w (s3_calls s) c = Inl e) \<longrightarrow>
        fst (process_file w s b k r) =
          Failure (''s3://'' @ b @ ''/'' @ k) (''Failed to process '' @ k @ '': '' @ str_exn e)"
    using process_file_copy_fails[of r p n db w s e b k] by blast
  have d: "destination_prefix r = Some p \<and> name r = Some n \<and> destination_bucket r = Some db
        \<and> (\<forall>c. copy_object w (s3_calls s) c = Inr ()) \<and> delete_source r = Some True
        \<and> (\<forall>calls. delete_object w calls b k = Inl e) \<longrightarrow>
        fst (process_file w s b k r) =
          Failure (''s3://'' @ b @ ''/'' @ k) (''Failed to process '' @ k @ '': '' @ str_exn e)"
    using process_file_delete_fails[of r p n db w s b k e] by blast
  have e: "(\<forall>q \<in> set event. unquote_plus w (object_key q) \<noteq> config_key w \<longrightarrow>
          (\<exists>d. find_best_destination (str_lower w) (re_search w) (unquote_plus w (object_key q))
                 (fst (load_routing_config w s)) = Inr d)) \<longrightarrow>
        (\<exists>resp s'. lambda_handler w s event = (Inr resp, s')
           \<and> statusCode resp = (if failed resp = [] then 200 else 207)
           \<and> processed_files resp = length (successful resp)
           \<and> errors resp = length (failed resp)
           \<and> (\<forall>x \<in> set (successful resp). success x)
           \<and> (\<forall>x \<in> set (failed resp). \<not> success x)
           \<and> length (successful resp) + length (failed resp) =
               length (filter (\<lambda>q. unquote_plus w (object_key q) \<noteq> config_key w
                         \<and> (\<exists>d. find_best_destination (str_lower w) (re_search w)
                                   (unquote_plus w (object_key q))
                                   (fst (load_routing_config w s)) = Inr (Some d))) event))"
    by (rule impI) (rule lambda_handler_returns)
  have f: "event = before @ rec # after
        \<and> (\<forall>q \<in> set before. unquote_plus w (object_key q) \<noteq> config_key w \<longrightarrow>
             (\<exists>d. find_best_destination (str_lower w) (re_search w)
                    (unquote_plus w (object_key q))
                    (fst (load_routing_config w s)) = Inr d))
        \<and> unquote_plus w (object_key rec) \<noteq> config_key w
        \<and> find_best_destination (str_lower w) (re_search w) (unquote_plus w (object_key rec))
             (fst (load_routing_config w s)) = Inl e' \<longrightarrow>
        fst (lambda_handler w s event) = Inl e'"
    using lambda_handler_raises[of event before rec after w s e'] by blast
  have m: "(\<forall>q \<in> set event. unquote_plus w (object_key q) \<noteq> config_key w \<longrightarrow>
          (\<exists>d. find_best_destination (str_lower w) (re_search w)
                 (unquote_plus w (object_key q)) (fst (load_routing_config w s)) = Inr d)) \<longrightarrow>
        (\<exists>resp. fst (lambda_handler w s event) = Inr resp
           \<and> (statusCode resp = 200 \<or> statusCode resp = 207)
           \<and> ((statusCode resp = 207) =
                (\<exists>pre nxt rest. event = pre @ nxt # rest
                   \<and> unquote_plus w (object_key nxt) \<noteq> config_key w
                   \<and> (\<exists>dest. find_best_destination (str_lower w) (re_search w)
                         (unquote_plus w (object_key nxt)) (fst (load_routing_config w s))
                           = Inr (Some dest)
                       \<and> \<not> success (fst (process_file w (snd (lambda_handler w s pre))
                              (bucket_name nxt) (unquote_plus w (object_key nxt)) dest))))))"
    by (rule impI) (rule lambda_handler_status)
  show ?thesis
    by (intro conjI) (rule a b c d e f g h i j k m)+
qed

text \<open>
  Claim C9 as stated fails when rule resolution raises: with a configuration whose first
  rule has a filter without \<open>value\<close>, the handler raises \<open>KeyError\<close> on a batch of one
  object of that rule's folder.
\<close>

theorem batch_result_counterexample:
  "fst (lambda_handler misconfigured_world initial_state data_event) = Inl (KeyError ''value'')"
  by code_simp

theorem batch_result_spec_witness:
  "fst (process_file example_world initial_state ''src'' ''Inbox/data.csv'' empty_rule) =
     Failure ''s3://src/Inbox/data.csv''
       (''Failed to process Inbox/data.csv: '' @ str_exn (KeyError ''destination_prefix''))
   \<and> fst (process_file refusing_world initial_state ''src'' ''Inbox/data.csv'' inbox_rule) =
     Failure ''s3://src/Inbox/data.csv'' ''Failed to process Inbox/data.csv: Access Denied''
   \<and> fst (process_file undeletable_world initial_state ''src'' ''Inbox/data.csv'' moving_rule) =
     Failure ''s3://src/Inbox/data.csv'' ''Failed to process Inbox/data.csv: Access Denied''
   \<and> (\<exists>resp s'. lambda_handler flaky_world initial_state mixed_event = (Inr resp, s')
         \<and> statusCode resp = (if failed resp = [] then 200 else 207)
         \<and> processed_files resp = length (successful resp)
         \<and> errors resp = length (failed resp)
         \<and> length (successful resp) + length (failed resp) = 2)
   \<and> fst (lambda_handler misconfigured_world initial_state data_event)
       = Inl (KeyError ''value'')
   \<and> fst (lambda_handler flaky_world initial_state mixed_event) =
       Inr \<lparr>statusCode = 207, processed_files = 1, errors = 1,
            successful = [Success ''s3://src/Inbox/data.csv'' ''s3://dst/Out/data.csv''
                            ''inbox'' (Some 1)],
            failed = [Failure ''s3://src/Inbox/bad.csv''
                        ''Failed to process Inbox/bad.csv: Access Denied'']\<rparr>
   \<and> fst (lambda_handler example_world initial_state mixed_event) =
       Inr \<lparr>statusCode = 200, processed_files = 2, errors = 0,
            successful = [Success ''s3://src/Inbox/bad.csv'' ''s3://dst/Out/bad.csv''
                            ''inbox'' (Some 1),
                          Success ''s3://src/Inbox/data.csv'' ''s3://dst/Out/data.csv''
                            ''inbox'' (Some 1)],
            failed = []\<rparr>
   \<and> (\<exists>resp. fst (lambda_handler flaky_world initial_state mixed_event) = Inr resp
         \<and> statusCode resp = 207)"
proof -
  let ?bad = "\<lparr>bucket_name = ''src'', object_key = ''Inbox/bad.csv''\<rparr>"
  let ?skipped = "\<lparr>bucket_name = ''src'', object_key = ''Other/skipped.csv''\<rparr>"
  let ?data = "\<lparr>bucket_name = ''src'', object_key = ''Inbox/data.csv''\<rparr>"
  let ?empty = "\<lparr>statusCode = 200, processed_files = 0, errors = 0, successful = [],
                  failed = []\<rparr>"
  let ?denied = "Failure ''s3://src/Inbox/bad.csv''
                   ''Failed to process Inbox/bad.csv: Access Denied''"
  let ?copied_bad = "Success ''s3://src/Inbox/bad.csv'' ''s3://dst/Out/bad.csv''
                       ''inbox'' (Some 1)"
  let ?copied = "Success ''s3://src/Inbox/data.csv'' ''s3://dst/Out/data.csv''
                   ''inbox'' (Some 1)"
  have g: "destination_prefix empty_rule = None"
    "destination_prefix inbox_rule = Some ''Out/''" "name inbox_rule = Some ''inbox''"
    "destination_bucket inbox_rule = Some ''dst''"
    "destination_prefix moving_rule = Some ''Out/''" "name moving_rule = Some ''moving''"
    "destination_bucket moving_rule = Some ''dst''" "delete_source moving_rule = Some True"
    by (simp_all add: empty_rule_def inbox_rule_def moving_rule_def)
  have c: "\<forall>c. copy_object refusing_world (s3_calls initial_state) c
              = Inl (LibError ''Access Denied'')"
    "\<forall>c. copy_object undeletable_world (s3_calls initial_state) c = Inr ()"
    "\<forall>calls. delete_object undeletable_world calls ''src'' ''Inbox/data.csv''
              = Inl (LibError ''Access Denied'')"
    by (simp_all add: refusing_world_def undeletable_world_def example_world_def)
  have 1: "fst (process_file example_world initial_state ''src'' ''Inbox/data.csv'' empty_rule) =
     Failure ''s3://src/Inbox/data.csv''
       (''Failed to process Inbox/data.csv: '' @ str_exn (KeyError ''destination_prefix''))"
    using batch_result_spec[where w = example_world and s = initial_state and b = "''src''"
        and k = "''Inbox/data.csv''" and r = empty_rule, THEN conjunct2, THEN conjunct1] g
    by simp
  have 2: "fst (process_file refusing_world initial_state ''src'' ''Inbox/data.csv'' inbox_rule) =
     Failure ''s3://src/Inbox/data.csv'' ''Failed to process Inbox/data.csv: Access Denied''"
    using batch_result_spec[where w = refusing_world and s = initial_state and b = "''src''"
        and k = "''Inbox/data.csv''" and r = inbox_rule and p = "''Out/''" and n = "''inbox''"
        and db = "''dst''" and e = "LibError ''Access Denied''",
        THEN conjunct2, THEN conjunct2, THEN conjunct1] g c
    by simp
  have 3: "fst (process_file undeletable_world initial_state ''src'' ''Inbox/data.csv''
      moving_rule) =
     Failure ''s3://src/Inbox/data.csv'' ''Failed to process Inbox/data.csv: Access Denied''"
    using batch_result_spec[where w = undeletable_world and s = initial_state and b = "''src''"
        and k = "''Inbox/data.csv''" and r = moving_rule and p = "''Out/''" and n = "''moving''"
        and db = "''dst''" and e = "LibError ''Access Denied''",
        THEN conjunct2, THEN conjunct2, THEN conjunct2, THEN conjunct1] g c
    by simp
  have w: "unquote_plus flaky_world = (\<lambda>k. k)" "re_search flaky_world = re_literal"
    "str_lower flaky_world = lower_ascii" "str_lower misconfigured_world = lower_ascii"
    "config_key flaky_world = ''config/routing-rules.json''"
    "unquote_plus misconfigured_world = (\<lambda>k. k)"
    "re_search misconfigured_world = re_literal"
    "config_key misconfigured_world = ''config/routing-rules.json''"
    "unquote_plus example_world = (\<lambda>k. k)" "re_search example_world = re_literal"
    "str_lower example_world = lower_ascii"
    "config_key example_world = ''config/routing-rules.json''"
    by (simp_all add: flaky_world_def misconfigured_world_def example_world_def config_key_def
          get_or_def)
  have l: "fst (load_routing_config flaky_world initial_state) = [inbox_rule]"
    "fst (load_routing_config misconfigured_world initial_state) = [no_value_rule, inbox_rule]"
    "fst (load_routing_config example_world initial_state) = [inbox_rule]"
    by code_simp+
  have f: "find_best_destination lower_ascii re_literal ''Inbox/bad.csv'' [inbox_rule]
      = Inr (Some inbox_rule)"
    "find_best_destination lower_ascii re_literal ''Other/skipped.csv'' [inbox_rule] = Inr None"
    "find_best_destination lower_ascii re_literal ''Inbox/data.csv'' [inbox_rule]
      = Inr (Some inbox_rule)"
    "find_best_destination lower_ascii re_literal ''Inbox/data.csv'' [no_value_rule, inbox_rule]
      = Inl (KeyError ''value'')"
    by code_simp+
  have ne: "''Inbox/bad.csv'' \<noteq> ''config/routing-rules.json''"
    "''Other/skipped.csv'' \<noteq> ''config/routing-rules.json''"
    "''Inbox/data.csv'' \<noteq> ''config/routing-rules.json''"
    by simp_all
  have hyp: "\<forall>q \<in> set mixed_event.
      unquote_plus flaky_world (object_key q) \<noteq> config_key flaky_world \<longrightarrow>
      (\<exists>d. find_best_destination (str_lower flaky_world) (re_search flaky_world)
             (unquote_plus flaky_world (object_key q))
             (fst (load_routing_config flaky_world initial_state)) = Inr d)"
    unfolding l w by (simp add: mixed_event_def f)
  have cnt: "length (filter (\<lambda>q. unquote_plus flaky_world (object_key q) \<noteq> config_key flaky_world
        \<and> (\<exists>d. find_best_destination (str_lower flaky_world) (re_search flaky_world)
                  (unquote_plus flaky_world (object_key q))
                  (fst (load_routing_config flaky_world initial_state)) = Inr (Some d)))
      mixed_event) = 2"
    unfolding l w by (simp add: mixed_event_def f)
  have 4: "\<exists>resp s'. lambda_handler flaky_world initial_state mixed_event = (Inr resp, s')
         \<and> statusCode resp = (if failed resp = [] then 200 else 207)
         \<and> processed_files resp = length (successful resp)
         \<and> errors resp = length (failed resp)
         \<and> length (successful resp) + length (failed resp) = 2"
    using batch_result_spec[where w = flaky_world and s = initial_state
        and event = mixed_event,
        THEN conjunct2, THEN conjunct2, THEN conjunct2, THEN conjunct2, THEN conjunct1]
      hyp cnt
    by auto
  have ev: "data_event = [] @ \<lparr>bucket_name = ''src'', object_key = ''Inbox/data.csv''\<rparr> # []"
    by (simp add: data_event_def)
  have r: "unquote_plus misconfigured_world
        (object_key \<lparr>bucket_name = ''src'', object_key = ''Inbox/data.csv''\<rparr>)
      \<noteq> config_key misconfigured_world"
    "find_best_destination (str_lower misconfigured_world) (re_search misconfigured_world)
       (unquote_plus misconfigured_world
          (object_key \<lparr>bucket_name = ''src'', object_key = ''Inbox/data.csv''\<rparr>))
       (fst (load_routing_config misconfigured_world initial_state)) = Inl (KeyError ''value'')"
    unfolding l w by (simp_all add: f)
  have 5: "fst (lambda_handler misconfigured_world initial_state data_event)
       = Inl (KeyError ''value'')"
    using batch_result_spec[where w = misconfigured_world and s = initial_state
        and event = data_event and before = "[]" and after = "[]"
        and rec = "\<lparr>bucket_name = ''src'', object_key = ''Inbox/data.csv''\<rparr>"
        and e' = "KeyError ''value''",
        THEN conjunct2, THEN conjunct2, THEN conjunct2, THEN conjunct2, THEN conjunct2,
        THEN conjunct1]
      ev r
    by simp
  have pf: "fst (process_file flaky_world (snd (lambda_handler flaky_world initial_state []))
                   ''src'' ''Inbox/bad.csv'' inbox_rule) = ?denied"
    "fst (process_file flaky_world
            (snd (lambda_handler flaky_world initial_state [?bad, ?skipped]))
            ''src'' ''Inbox/data.csv'' inbox_rule) = ?copied"
    "fst (process_file example_world (snd (lambda_handler example_world initial_state []))
            ''src'' ''Inbox/bad.csv'' inbox_rule) = ?copied_bad"
    "fst (process_file example_world
            (snd (lambda_handler example_world initial_state [?bad, ?skipped]))
            ''src'' ''Inbox/data.csv'' inbox_rule) = ?copied"
    by code_simp+
  have f0: "fst (lambda_handler flaky_world initial_state []) = Inr ?empty"
    using batch_result_spec[where w = flaky_world and s = initial_state,
        THEN conjunct2, THEN conjunct2, THEN conjunct2, THEN conjunct2,
        THEN conjunct2, THEN conjunct2, THEN conjunct1] by simp
  have f1: "fst (lambda_handler flaky_world initial_state ([] @ [?bad])) =
      Inr (?empty\<lparr>statusCode := 207, errors := Suc (errors ?empty),
             failed := failed ?empty @ [?denied]\<rparr>)"
    using batch_result_spec[where w = flaky_world and s = initial_state and pre = "[]" and nxt =
        ?bad
        and summary = ?empty and dest = inbox_rule,
        THEN conjunct2, THEN conjunct2, THEN conjunct2, THEN conjunct2,
        THEN conjunct2, THEN conjunct2, THEN conjunct2, THEN conjunct2,
        THEN conjunct1] f0
    unfolding l w by (simp add: f pf ne)
  have f2: "fst (lambda_handler flaky_world initial_state ([?bad] @ [?skipped])) =
      Inr \<lparr>statusCode = 207, processed_files = 0, errors = 1, successful = [],
           failed = [?denied]\<rparr>"
    using batch_result_spec[where w = flaky_world and s = initial_state and pre = "[?bad]"
        and nxt = ?skipped
        and summary = "\<lparr>statusCode = 207, processed_files = 0, errors = 1, successful = [],
           failed = [?denied]\<rparr>",
        THEN conjunct2, THEN conjunct2, THEN conjunct2, THEN conjunct2,
        THEN conjunct2, THEN conjunct2, THEN conjunct2, THEN conjunct2,
        THEN conjunct2, THEN conjunct1] f1
    unfolding l w by (simp add: f)
  have f3: "fst (lambda_handler flaky_world initial_state ([?bad, ?skipped] @ [?data])) =
      Inr \<lparr>statusCode = 207, processed_files = 1, errors = 1, successful = [?copied],
           failed = [?denied]\<rparr>"
    using batch_result_spec[where w = flaky_world and s = initial_state and pre = "[?bad, ?skipped]"
        and nxt = ?data
        and summary = "\<lparr>statusCode = 207, processed_files = 0, errors = 1, successful = [],
           failed = [?denied]\<rparr>" and dest = inbox_rule,
        THEN conjunct2, THEN conjunct2, THEN conjunct2, THEN conjunct2,
        THEN conjunct2, THEN conjunct2, THEN conjunct2, THEN conjunct1] f2
    unfolding l w by (simp add: f pf ne)
  have 6: "fst (lambda_handler flaky_world initial_state mixed_event) =
       Inr \<lparr>statusCode = 207, processed_files = 1, errors = 1, successful = [?copied],
            failed = [?denied]\<rparr>"
    using f3 by (simp add: mixed_event_def)
  have e0: "fst (lambda_handler example_world initial_state []) = Inr ?empty"
    using batch_result_spec[where w = example_world and s = initial_state,
        THEN conjunct2, THEN conjunct2, THEN conjunct2, THEN conjunct2,
        THEN conjunct2, THEN conjunct2, THEN conjunct1] by simp
  have e1: "fst (lambda_handler example_world initial_state ([] @ [?bad])) =
      Inr (?empty\<lparr>processed_files := Suc (processed_files ?empty),
             successful := successful ?empty @ [?copied_bad]\<rparr>)"
    using batch_result_spec[where w = example_world and s = initial_state and pre = "[]"
        and nxt = ?bad and summary = ?empty and dest = inbox_rule,
        THEN conjunct2, THEN conjunct2, THEN conjunct2, THEN conjunct2,
        THEN conjunct2, THEN conjunct2, THEN conjunct2, THEN conjunct1] e0
    unfolding l w by (simp add: f pf ne)
  have e2: "fst (lambda_handler example_world initial_state ([?bad] @ [?skipped])) =
      Inr \<lparr>statusCode = 200, processed_files = 1, errors = 0, successful = [?copied_bad],
           failed = []\<rparr>"
    using batch_result_spec[where w = example_world and s = initial_state and pre = "[?bad]"
        and nxt = ?skipped
        and summary = "\<lparr>statusCode = 200, processed_files = 1, errors = 0,
           successful = [?copied_bad], failed = []\<rparr>",
        THEN conjunct2, THEN conjunct2, THEN conjunct2, THEN conjunct2,
        THEN conjunct2, THEN conjunct2, THEN conjunct2, THEN conjunct2,
        THEN conjunct2, THEN conjunct1] e1
    unfolding l w by (simp add: f)
  have e3: "fst (lambda_handler example_world initial_state ([?bad, ?skipped] @ [?data])) =
      Inr \<lparr>statusCode = 200, processed_files = 2, errors = 0,
           successful = [?copied_bad, ?copied], failed = []\<rparr>"
    using batch_result_spec[where w = example_world and s = initial_state and pre = "[?bad,
        ?skipped]"
        and nxt = ?data
        and summary = "\<lparr>statusCode = 200, processed_files = 1, errors = 0,
           successful = [?copied_bad], failed = []\<rparr>" and dest = inbox_rule,
        THEN conjunct2, THEN conjunct2, THEN conjunct2, THEN conjunct2,
        THEN conjunct2, THEN conjunct2, THEN conjunct2, THEN conjunct1] e2
    unfolding l w by (simp add: f pf ne)
  have 7: "fst (lambda_handler example_world initial_state mixed_event) =
       Inr \<lparr>statusCode = 200, processed_files = 2, errors = 0,
            successful = [?copied_bad, ?copied], failed = []\<rparr>"
    using e3 by (simp add: mixed_event_def)
  have q: "mixed_event = [] @ ?bad # [?skipped, ?data]
      \<and> unquote_plus flaky_world (object_key ?bad) \<noteq> config_key flaky_world
      \<and> (\<exists>dest. find_best_destination (str_lower flaky_world) (re_search flaky_world)
             (unquote_plus flaky_world (object_key ?bad))
             (fst (load_routing_config flaky_world initial_state)) = Inr (Some dest)
           \<and> \<not> success (fst (process_file flaky_world
                  (snd (lambda_handler flaky_world initial_state []))
                  (bucket_name ?bad) (unquote_plus flaky_world (object_key ?bad)) dest)))"
    unfolding l w by (simp add: mixed_event_def f pf ne)
  have ex: "\<exists>pre nxt rest. mixed_event = pre @ nxt # rest
      \<and> unquote_plus flaky_world (object_key nxt) \<noteq> config_key flaky_world
      \<and> (\<exists>dest. find_best_destination (str_lower flaky_world) (re_search flaky_world)
             (unquote_plus flaky_world (object_key nxt))
             (fst (load_routing_config flaky_world initial_state)) = Inr (Some dest)
           \<and> \<not> success (fst (process_file flaky_world
                  (snd (lambda_handler flaky_world initial_state pre))
                  (bucket_name nxt) (unquote_plus flaky_world (object_key nxt)) dest)))"
    using q by blast
  have 8: "\<exists>resp. fst (lambda_handler flaky_world initial_state mixed_event) = Inr resp
         \<and> statusCode resp = 207"
    using batch_result_spec[where w = flaky_world and s = initial_state
        and event = mixed_event,
        THEN conjunct2, THEN conjunct2, THEN conjunct2, THEN conjunct2,
        THEN conjunct2, THEN conjunct2, THEN conjunct2, THEN conjunct2,
        THEN conjunct2, THEN conjunct2, THEN conjunct2] hyp ex
    by blast
  from 1 2 3 4 5 6 7 8 show ?thesis by blast
qed

end
